theory Spec2Isabelle
  imports Complex_Main
begin

section \<open>World positions and the polyline length of the measure-distance tool\<close>

text \<open>
  A world position is a Cesium \<open>Cartesian3\<close>: three coordinates in metres. JavaScript numbers
  are modelled as real numbers throughout.
\<close>

record cartesian3 =
  cx :: real
  cy :: real
  cz :: real

text \<open>
  \<open>Cartesian3.distance(a, b)\<close> of the Cesium library: the magnitude of the difference of the
  two vectors.
\<close>

definition distance :: "cartesian3 \<Rightarrow> cartesian3 \<Rightarrow> real" where
  "distance a b = sqrt ((cx a - cx b)\<^sup>2 + (cy a - cy b)\<^sup>2 + (cz a - cz b)\<^sup>2)"

text \<open>
  \<open>computeLength(positions)\<close>: the loop
  \<^verbatim>\<open>let sum = 0; for (let i = 1; i < positions.length; i++) sum += distance(positions[i - 1], positions[i]);\<close>
  with the loop variable and the running sum (here \<open>acc\<close>) as arguments.
\<close>

function computeLength_loop :: "cartesian3 list \<Rightarrow> nat \<Rightarrow> real \<Rightarrow> real" where
  "computeLength_loop positions i acc =
     (if i < length positions
      then computeLength_loop positions (i + 1) (acc + distance (positions ! (i - 1)) (positions ! i))
      else acc)"
  by pat_completeness auto
termination
  by (relation "measure (\<lambda>(positions, i, acc). length positions - i)") auto

declare computeLength_loop.simps [simp del]

definition computeLength :: "cartesian3 list \<Rightarrow> real" where
  "computeLength positions = computeLength_loop positions 1 0"

section \<open>The viewer's entity collection\<close>

text \<open>
  The tools create Cesium entities of four shapes: a point marker, the preview polyline whose
  positions are the callback \<^verbatim>\<open>() => pts.slice()\<close> (it shows whatever the vertex buffer holds
  when it is rendered; the flag is \<^verbatim>\<open>polyline.show\<close>), a polyline with a fixed position array,
  and a text label. A label text is either the literal \<^verbatim>\<open>"0 m"\<close> or
  \<^verbatim>\<open>`${length.toFixed(2)} m`\<close>, kept as the number that is formatted.
\<close>

datatype colour = Yellow | Red | Blue | Green

datatype label_text = ZeroMetres | Metres real

datatype graphics =
    PointMarker
  | PreviewPolyline bool
  | Polyline colour "cartesian3 list"
  | Label label_text

record entity =
  position :: "cartesian3 option"
  graphics :: graphics

text \<open>
  Entities are JavaScript objects, and the tools keep references to them after they have
  left the collection. The store \<open>objects\<close> holds every entity created so far, a reference
  is an index into it, and \<open>shown\<close> is \<^verbatim>\<open>viewer.entities\<close>: the references that are in the
  collection, in insertion order.
\<close>

record viewer =
  objects :: "entity list"
  shown :: "nat list"

definition add :: "entity \<Rightarrow> viewer \<Rightarrow> nat \<times> viewer" where
  "add e v = (length (objects v),
              v\<lparr>objects := objects v @ [e], shown := shown v @ [length (objects v)]\<rparr>)"

definition remove :: "nat \<Rightarrow> viewer \<Rightarrow> viewer" where
  "remove r v = v\<lparr>shown := removeAll r (shown v)\<rparr>"

definition setPosition :: "nat \<Rightarrow> cartesian3 \<Rightarrow> viewer \<Rightarrow> viewer" where
  "setPosition r p v = v\<lparr>objects := (objects v)[r := (objects v ! r)\<lparr>position := Some p\<rparr>]\<rparr>"

definition setGraphics :: "nat \<Rightarrow> graphics \<Rightarrow> viewer \<Rightarrow> viewer" where
  "setGraphics r g v = v\<lparr>objects := (objects v)[r := (objects v ! r)\<lparr>graphics := g\<rparr>]\<rparr>"

section \<open>The measure-distance tool\<close>

text \<open>
  The start button shows one of two icons (\<^verbatim>\<open>--black-icon-edit\<close>,
  \<^verbatim>\<open>--black-icon-edit-off\<close>), and the result row one of three Swedish texts: the initial
  prompt to click to start measuring, the distance tool's prompt to click for points and
  double-click to finish, and the height tool's prompt to click once for the start point and
  once for the end point.
\<close>

datatype icon = IconEdit | IconEditOff

datatype result_text = ClickToStartMeasuring | ClickToPlacePoints | ClickStartAndEndPoint

text \<open>
  The state both measuring tools share: the drawing flag, whether a
  \<open>ScreenSpaceEventHandler\<close> is attached (\<open>handler\<close> is not \<open>null\<close>), the vertex buffer, the
  lists of finalized entities, the start button's icon, the result row's text and the viewer.
\<close>

record draw_tool =
  isDrawing :: bool
  handler :: bool
  pts :: "cartesian3 list"
  measuredLines :: "nat list"
  measuredLabels :: "nat list"
  startIcon :: icon
  resultText :: result_text
  viewer :: viewer

text \<open>
  The measure-distance tool adds the floating marker, the preview line, the live label, the
  markers of the line in progress and the markers of the finalized lines. \<open>keydownBound\<close>
  says whether \<open>escHandler\<close> is registered on the window. \<open>ptsMinus1\<close> is the property
  \<^verbatim>\<open>pts[-1]\<close>: the move handler writes \<^verbatim>\<open>pts[pts.length - 1]\<close> also when the buffer is empty,
  which in JavaScript stores the value under the key \<^verbatim>\<open>-1\<close> and leaves the length at 0.
\<close>

record dstate = draw_tool +
  ptsMinus1 :: "cartesian3 option"
  floatPt :: "nat option"
  lineEnt :: "nat option"
  dynamicLabel :: "nat option"
  markerEntities :: "nat list"
  measuredMarkers :: "nat list list"
  keydownBound :: bool

definition initMeasureDistance :: "viewer \<Rightarrow> dstate" where
  "initMeasureDistance v =
     \<lparr>isDrawing = False, handler = False, pts = [], measuredLines = [], measuredLabels = [],
      startIcon = IconEdit, resultText = ClickToStartMeasuring, viewer = v,
      ptsMinus1 = None, floatPt = None, lineEnt = None, dynamicLabel = None,
      markerEntities = [], measuredMarkers = [], keydownBound = False\<rparr>"

definition createMarker :: "cartesian3 \<Rightarrow> dstate \<Rightarrow> nat \<times> dstate" where
  "createMarker pos s =
     (let (marker, v) = add \<lparr>position = Some pos, graphics = PointMarker\<rparr> (viewer s)
      in (marker, s\<lparr>viewer := v, markerEntities := markerEntities s @ [marker]\<rparr>))"

text \<open>
  \<open>finalizeLine\<close>: remove the temporary helpers, add the permanent polyline with a copy of
  the buffer, keep the markers of this measurement, add the final label at the last point
  and reset the buffer and the marker list.
\<close>

definition finalizeLine :: "dstate \<Rightarrow> dstate" where
  "finalizeLine s0 =
     (let s1 = (case floatPt s0 of
                  Some e \<Rightarrow> s0\<lparr>viewer := remove e (viewer s0), floatPt := None\<rparr>
                | None \<Rightarrow> s0);
          s2 = (case lineEnt s1 of
                  Some e \<Rightarrow> s1\<lparr>viewer := remove e (viewer s1), lineEnt := None\<rparr>
                | None \<Rightarrow> s1);
          s3 = (case dynamicLabel s2 of
                  Some e \<Rightarrow> s2\<lparr>viewer := remove e (viewer s2), dynamicLabel := None\<rparr>
                | None \<Rightarrow> s2);
          (line, v4) = add \<lparr>position = None, graphics = Polyline Red (pts s3)\<rparr> (viewer s3);
          s4 = s3\<lparr>viewer := v4, measuredLines := measuredLines s3 @ [line],
                  measuredMarkers := measuredMarkers s3 @ [markerEntities s3]\<rparr>;
          len = computeLength (pts s4);
          lastPt = (if pts s4 = [] then ptsMinus1 s4 else Some (last (pts s4)));
          (label, v5) = add \<lparr>position = lastPt, graphics = Label (Metres len)\<rparr> (viewer s4)
      in s4\<lparr>viewer := v5, measuredLabels := measuredLabels s4 @ [label],
             pts := [], ptsMinus1 := None, markerEntities := []\<rparr>)"

text \<open>
  \<open>startDrawing\<close> attaches the pointer handler and the key listener and resets the buffer.
  It is reached only through \<open>toggleDrawing\<close> when \<open>isDrawing\<close> is false, and
  \<open>stopDrawing\<close>, the only place that clears \<open>isDrawing\<close>, destroys the handler: so one
  flag suffices for the handler.
\<close>

definition startDrawing :: "dstate \<Rightarrow> dstate" where
  "startDrawing s =
     s\<lparr>isDrawing := True, startIcon := IconEditOff, resultText := ClickToPlacePoints,
       handler := True, pts := [], ptsMinus1 := None, floatPt := None, lineEnt := None,
       markerEntities := [], keydownBound := True\<rparr>"

definition stopDrawing :: "dstate \<Rightarrow> dstate" where
  "stopDrawing s0 =
     (let s1 = s0\<lparr>isDrawing := False, startIcon := IconEdit, handler := False,
                  keydownBound := False\<rparr>;
          s2 = (case dynamicLabel s1 of
                  Some e \<Rightarrow> s1\<lparr>viewer := remove e (viewer s1), dynamicLabel := None\<rparr>
                | None \<Rightarrow> s1)
      in s2\<lparr>viewer := fold remove (markerEntities s2) (viewer s2), markerEntities := [],
             pts := [], ptsMinus1 := None\<rparr>)"

definition toggleDrawing :: "dstate \<Rightarrow> dstate" where
  "toggleDrawing s = (if isDrawing s then stopDrawing s else startDrawing s)"

text \<open>
  The pointer handlers take what \<^verbatim>\<open>viewer.scene.pickPosition\<close> returns for the event's screen
  position: \<open>None\<close> when it is not \<open>defined\<close>.
\<close>

definition leftClick :: "cartesian3 option \<Rightarrow> dstate \<Rightarrow> dstate" where
  "leftClick picked s =
     (case picked of
        None \<Rightarrow> s
      | Some pos \<Rightarrow>
          if length (pts s) = 0 then
            (let s1 = s\<lparr>pts := pts s @ [pos, pos]\<rparr>;
                 (marker, s2) = createMarker pos s1;
                 s3 = s2\<lparr>floatPt := Some marker\<rparr>;
                 (line, v4) = add \<lparr>position = None, graphics = PreviewPolyline True\<rparr> (viewer s3);
                 s4 = s3\<lparr>viewer := v4, lineEnt := Some line\<rparr>;
                 (label, v5) = add \<lparr>position = Some pos, graphics = Label ZeroMetres\<rparr> (viewer s4)
             in s4\<lparr>viewer := v5, dynamicLabel := Some label\<rparr>)
          else
            (let s1 = s\<lparr>pts := (pts s)[length (pts s) - 1 := pos]\<rparr>;
                 (marker, s2) = createMarker pos s1;
                 s3 = s2\<lparr>floatPt := Some marker\<rparr>
             in s3\<lparr>pts := pts s3 @ [pos]\<rparr>))"

definition mouseMove :: "cartesian3 option \<Rightarrow> dstate \<Rightarrow> dstate" where
  "mouseMove picked s =
     (case floatPt s of
        None \<Rightarrow> s
      | Some f \<Rightarrow>
          (case picked of
             None \<Rightarrow> s
           | Some pos \<Rightarrow>
               (let s1 = s\<lparr>viewer := setPosition f pos (viewer s)\<rparr>;
                    s2 = (if pts s1 = [] then s1\<lparr>ptsMinus1 := Some pos\<rparr>
                          else s1\<lparr>pts := (pts s1)[length (pts s1) - 1 := pos]\<rparr>)
                in (case dynamicLabel s2 of
                      None \<Rightarrow> s2
                    | Some d \<Rightarrow>
                        s2\<lparr>viewer := setGraphics d (Label (Metres (computeLength (pts s2))))
                                        (setPosition d pos (viewer s2))\<rparr>))))"

definition doubleClick :: "dstate \<Rightarrow> dstate" where
  "doubleClick s = (if length (pts s) < 2 then s else finalizeLine s)"

text \<open>
  \<open>escHandler\<close>: \<^verbatim>\<open>pts.pop()\<close>, \<^verbatim>\<open>markerEntities.pop()\<close> (\<open>undefined\<close> on an empty list, and
  then nothing is removed), the label update, and hiding the preview line below two points.
\<close>

definition escHandler :: "string \<Rightarrow> dstate \<Rightarrow> dstate" where
  "escHandler key s =
     (if key = ''Escape'' \<and> isDrawing s then
        (if length (pts s) > 0 then
           (let s1 = s\<lparr>pts := butlast (pts s)\<rparr>;
                s2 = (if markerEntities s1 = [] then s1
                      else s1\<lparr>markerEntities := butlast (markerEntities s1),
                              viewer := remove (last (markerEntities s1)) (viewer s1)\<rparr>);
                s3 = (case dynamicLabel s2 of
                        None \<Rightarrow> s2
                      | Some d \<Rightarrow>
                          if length (pts s2) > 0 then
                            s2\<lparr>viewer := setGraphics d (Label (Metres (computeLength (pts s2))))
                                            (setPosition d (last (pts s2)) (viewer s2))\<rparr>
                          else s2\<lparr>viewer := setGraphics d (Label ZeroMetres) (viewer s2)\<rparr>)
            in (if length (pts s3) < 2 then
                  (case lineEnt s3 of
                     Some l \<Rightarrow> s3\<lparr>viewer := setGraphics l (PreviewPolyline False) (viewer s3)\<rparr>
                   | None \<Rightarrow> s3)
                else s3))
         else s)
      else s)"

text \<open>
  \<open>clearAll\<close> removes the finalized lines, labels and markers from the collection, empties
  the first two lists (not \<open>measuredMarkers\<close>) and stops drawing.
\<close>

definition clearAll :: "dstate \<Rightarrow> dstate" where
  "clearAll s =
     (let v1 = fold remove (measuredLines s) (viewer s);
          v2 = fold remove (measuredLabels s) v1;
          v3 = fold remove (concat (measuredMarkers s)) v2
      in stopDrawing (s\<lparr>viewer := v3, measuredLines := [], measuredLabels := []\<rparr>))"

text \<open>
  What can happen to the tool: the two buttons, the three pointer events (delivered only
  while a handler is attached), a key press (delivered only while \<open>escHandler\<close> is
  registered), a change of the panel's style (with whether \<^verbatim>\<open>display\<close> is \<^verbatim>\<open>"block"\<close>), and the
  \<open>stop\<close> function the tool returns to its parent.
\<close>

datatype event =
    StartButton
  | ClearButton
  | LeftClick "cartesian3 option"
  | MouseMove "cartesian3 option"
  | LeftDoubleClick
  | KeyDown string
  | PanelStyle bool
  | Stop

fun dispatch :: "event \<Rightarrow> dstate \<Rightarrow> dstate" where
  "dispatch StartButton s = toggleDrawing s"
| "dispatch ClearButton s = clearAll s"
| "dispatch (LeftClick picked) s = (if handler s then leftClick picked s else s)"
| "dispatch (MouseMove picked) s = (if handler s then mouseMove picked s else s)"
| "dispatch LeftDoubleClick s = (if handler s then doubleClick s else s)"
| "dispatch (KeyDown key) s = (if keydownBound s then escHandler key s else s)"
| "dispatch (PanelStyle block) s = (if \<not> block \<and> isDrawing s then stopDrawing s else s)"
| "dispatch Stop s = stopDrawing s"

fun run :: "event list \<Rightarrow> dstate \<Rightarrow> dstate" where
  "run [] s = s"
| "run (e # es) s = run es (dispatch e s)"

text \<open>
  The states the tool can be in are those \<open>run\<close> reaches from \<open>initMeasureDistance\<close>. They
  all satisfy \<open>consistent\<close>: the handler and the key listener are attached exactly while
  drawing, a non-empty buffer comes with a floating marker, and outside drawing there is
  nothing in progress.
\<close>

definition consistent :: "dstate \<Rightarrow> bool" where
  "consistent s \<longleftrightarrow> handler s = isDrawing s \<and> keydownBound s = isDrawing s
     \<and> (pts s = [] \<or> (\<exists>f. floatPt s = Some f))
     \<and> (isDrawing s \<or> (dynamicLabel s = None \<and> markerEntities s = [] \<and> pts s = []
           \<and> ptsMinus1 s = None \<and> startIcon s = IconEdit))"

text \<open>
  The committed vertices are the buffer without its trailing element, the floating point.
  \<open>finalizedPolylines\<close> reads what the permanent lines look like, and \<open>clicks\<close> is a sequence
  of primary clicks at positions that resolve.
\<close>

definition committedVertices :: "dstate \<Rightarrow> cartesian3 list" where
  "committedVertices s = butlast (pts s)"

definition finalizedPolylines :: "dstate \<Rightarrow> graphics list" where
  "finalizedPolylines s = map (\<lambda>r. graphics (objects (viewer s) ! r)) (measuredLines s)"

definition clicks :: "cartesian3 list \<Rightarrow> event list" where
  "clicks ps = map (\<lambda>p. LeftClick (Some p)) ps"

text \<open>
  The references of the finalized measurements, those of the measurement in progress that
  \<open>stopDrawing\<close> removes (the markers of the line in progress and the live label), and what
  holds of them in every reachable state: the two sets are disjoint and every reference
  is to an entity that exists.
\<close>

definition finalized :: "dstate \<Rightarrow> nat set" where
  "finalized s = set (measuredLines s) \<union> set (measuredLabels s) \<union> set (concat (measuredMarkers s))"

definition inProgress :: "dstate \<Rightarrow> nat set" where
  "inProgress s = set (markerEntities s) \<union> set_option (dynamicLabel s)"

definition separate :: "dstate \<Rightarrow> bool" where
  "separate s \<longleftrightarrow> finalized s \<inter> inProgress s = {}
     \<and> (finalized s \<union> inProgress s) \<subseteq> {..<length (objects (viewer s))}"

text \<open>
  The specification's wording, written down independently of the loop: the sum of the
  Euclidean distances between consecutive vertices.
\<close>

fun consecutive_distance_sum :: "cartesian3 list \<Rightarrow> real" where
  "consecutive_distance_sum (p # q # ps) = distance p q + consecutive_distance_sum (q # ps)"
| "consecutive_distance_sum _ = 0"

section \<open>The measure-height tool\<close>

text \<open>
  A geodetic position (Cesium's \<open>Cartographic\<close>): longitude and latitude in radians and the
  height above the ellipsoid in metres.
\<close>

record cartographic =
  longitude :: real
  latitude :: real
  height :: real

text \<open>
  The two conversions the tool calls on the globe's ellipsoid belong to the Cesium library
  and are parameters of the model: \<^verbatim>\<open>Cartographic.fromCartesian(p, ellipsoid)\<close>, which
  returns \<open>undefined\<close> (here \<open>None\<close>) at the centre of the ellipsoid, and
  \<^verbatim>\<open>Cartesian3.fromRadians(longitude, latitude, height, ellipsoid)\<close>.
\<close>

record ellipsoid =
  fromCartesian :: "cartesian3 \<Rightarrow> cartographic option"
  fromRadians :: "real \<Rightarrow> real \<Rightarrow> real \<Rightarrow> cartesian3"

datatype js_error = TypeError

record metrics =
  horizontal :: real
  heightDiff :: real
  diagonal :: real
  proj :: cartesian3

text \<open>
  \<open>computeMetrics(p1, p2)\<close>. Reading \<^verbatim>\<open>.height\<close> of a conversion that came back
  \<open>undefined\<close> raises a \<open>TypeError\<close>.
\<close>

definition computeMetrics :: "ellipsoid \<Rightarrow> cartesian3 \<Rightarrow> cartesian3 \<Rightarrow> js_error + metrics" where
  "computeMetrics g p1 p2 =
     (case fromCartesian g p1 of
        None \<Rightarrow> Inl TypeError
      | Some c1 \<Rightarrow>
          (case fromCartesian g p2 of
             None \<Rightarrow> Inl TypeError
           | Some c2 \<Rightarrow>
               (let heightDiff = \<bar>height c2 - height c1\<bar>;
                    proj = fromRadians g (longitude c2) (latitude c2) (height c1);
                    horizontal = distance p1 proj;
                    diagonal = distance p1 p2
                in Inr \<lparr>horizontal = horizontal, heightDiff = heightDiff,
                         diagonal = diagonal, proj = proj\<rparr>)))"

text \<open>\<open>Cartesian3.midpoint(a, b, result)\<close> of the Cesium library.\<close>

definition midpoint :: "cartesian3 \<Rightarrow> cartesian3 \<Rightarrow> cartesian3" where
  "midpoint a b = \<lparr>cx = (cx a + cx b) / 2, cy = (cy a + cy b) / 2, cz = (cz a + cz b) / 2\<rparr>"

text \<open>
  A window position is represented by what the two pickers return for it:
  \<^verbatim>\<open>viewer.scene.pickPosition\<close> and \<^verbatim>\<open>viewer.camera.pickEllipsoid\<close>. \<open>pickWorldPosition\<close>
  returns nothing for an undefined window position and falls back to the ellipsoid.
\<close>

record window_position =
  scenePick :: "cartesian3 option"
  ellipsoidPick :: "cartesian3 option"

definition pickWorldPosition :: "window_position option \<Rightarrow> cartesian3 option" where
  "pickWorldPosition windowPos =
     (case windowPos of
        None \<Rightarrow> None
      | Some w \<Rightarrow> (case scenePick w of Some pos \<Rightarrow> Some pos | None \<Rightarrow> ellipsoidPick w))"

record hstate = draw_tool +
  tempMarkerEnts :: "nat list"
  diagEnt :: "nat option"
  horizEnt :: "nat option"
  vertEnt :: "nat option"
  labelDiag :: "nat option"
  labelHoriz :: "nat option"
  labelVert :: "nat option"

definition initMeasureHeight :: "viewer \<Rightarrow> hstate" where
  "initMeasureHeight v =
     \<lparr>isDrawing = False, handler = False, pts = [], measuredLines = [], measuredLabels = [],
      startIcon = IconEdit, resultText = ClickToStartMeasuring, viewer = v,
      tempMarkerEnts = [], diagEnt = None, horizEnt = None, vertEnt = None,
      labelDiag = None, labelHoriz = None, labelVert = None\<rparr>"

text \<open>
  A handler either returns or throws; what it has written to the tool's variables before
  throwing stays written, so both outcomes carry the state.
\<close>

datatype 's completion = Normal 's | Thrown js_error 's

fun state_of :: "'s completion \<Rightarrow> 's" where
  "state_of (Normal s) = s"
| "state_of (Thrown e s) = s"

text \<open>
  \<open>finalizeHeight\<close>: remove the temporary markers, destructure \<^verbatim>\<open>[p1, p2] = pts\<close> (a missing
  element is \<open>undefined\<close>, on which the conversion throws), compute the metrics, add the
  three lines and the three labels at the midpoints, store them and empty the buffer.
\<close>

definition finalizeHeight :: "ellipsoid \<Rightarrow> hstate \<Rightarrow> hstate completion" where
  "finalizeHeight g s0 =
     (let s1 = s0\<lparr>viewer := fold remove (tempMarkerEnts s0) (viewer s0), tempMarkerEnts := []\<rparr>
      in (case pts s1 of
            p1 # p2 # rest \<Rightarrow>
              (case computeMetrics g p1 p2 of
                 Inl e \<Rightarrow> Thrown e s1
               | Inr m \<Rightarrow>
                   (let (diag, v2) = add \<lparr>position = None, graphics = Polyline Red [p1, p2]\<rparr>
                                       (viewer s1);
                        (horiz, v3) = add \<lparr>position = None,
                                             graphics = Polyline Blue [p1, proj m]\<rparr> v2;
                        (vert, v4) = add \<lparr>position = None,
                                            graphics = Polyline Green [proj m, p2]\<rparr> v3;
                        (lDiag, v5) = add \<lparr>position = Some (midpoint p1 p2),
                                             graphics = Label (Metres (diagonal m))\<rparr> v4;
                        (lHoriz, v6) = add \<lparr>position = Some (midpoint p1 (proj m)),
                                              graphics = Label (Metres (horizontal m))\<rparr> v5;
                        (lVert, v7) = add \<lparr>position = Some (midpoint (proj m) p2),
                                             graphics = Label (Metres (heightDiff m))\<rparr> v6
                    in Normal (s1\<lparr>viewer := v7,
                                  diagEnt := Some diag, horizEnt := Some horiz, vertEnt := Some vert,
                                  labelDiag := Some lDiag, labelHoriz := Some lHoriz,
                                  labelVert := Some lVert,
                                  measuredLines := measuredLines s1 @ [diag, horiz, vert],
                                  measuredLabels := measuredLabels s1 @ [lDiag, lHoriz, lVert],
                                  pts := []\<rparr>)))
          | _ \<Rightarrow> Thrown TypeError s1))"

text \<open>
  The click handler of the height tool, in its two parts: the point and its temporary
  marker are added, and when that makes two points the measurement is finalized. It is the
  only pointer handler the tool registers.
\<close>

definition addPoint :: "cartesian3 \<Rightarrow> hstate \<Rightarrow> hstate" where
  "addPoint pos s =
     (let s1 = s\<lparr>pts := pts s @ [pos]\<rparr>;
          (m, v) = add \<lparr>position = Some pos, graphics = PointMarker\<rparr> (viewer s1)
      in s1\<lparr>viewer := v, tempMarkerEnts := tempMarkerEnts s1 @ [m]\<rparr>)"

definition leftClick_height :: "ellipsoid \<Rightarrow> window_position \<Rightarrow> hstate \<Rightarrow> hstate completion" where
  "leftClick_height g w s =
     (case pickWorldPosition (Some w) of
        None \<Rightarrow> Normal s
      | Some pos \<Rightarrow>
          (let s1 = addPoint pos s
           in if length (pts s1) = 2 then finalizeHeight g s1 else Normal s1))"

definition startDrawing_height :: "hstate \<Rightarrow> hstate" where
  "startDrawing_height s =
     s\<lparr>isDrawing := True, startIcon := IconEditOff, resultText := ClickStartAndEndPoint,
       handler := True, pts := [], tempMarkerEnts := []\<rparr>"

definition stopDrawing_height :: "hstate \<Rightarrow> hstate" where
  "stopDrawing_height s =
     s\<lparr>isDrawing := False, startIcon := IconEdit, handler := False,
       viewer := fold remove (tempMarkerEnts s) (viewer s), tempMarkerEnts := [], pts := []\<rparr>"

definition clearAll_height :: "hstate \<Rightarrow> hstate" where
  "clearAll_height s0 =
     (let s1 = stopDrawing_height s0;
          v1 = fold remove (measuredLines s1) (viewer s1);
          v2 = fold remove (measuredLabels s1) v1
      in s1\<lparr>viewer := v2, measuredLines := [], measuredLabels := []\<rparr>)"

text \<open>
  What can happen to the height tool. There is no double-click and no move event: the tool
  registers no handler for them.
\<close>

datatype event_height =
    StartButton_height
  | ClearButton_height
  | LeftClick_height window_position
  | PanelStyle_height bool
  | Stop_height

fun dispatch_height :: "ellipsoid \<Rightarrow> event_height \<Rightarrow> hstate \<Rightarrow> hstate" where
  "dispatch_height g StartButton_height s =
     (if isDrawing s then stopDrawing_height s else startDrawing_height s)"
| "dispatch_height g ClearButton_height s = clearAll_height s"
| "dispatch_height g (LeftClick_height w) s =
     (if handler s then state_of (leftClick_height g w s) else s)"
| "dispatch_height g (PanelStyle_height block) s =
     (if \<not> block \<and> isDrawing s then stopDrawing_height s else s)"
| "dispatch_height g Stop_height s = stopDrawing_height s"

fun run_height :: "ellipsoid \<Rightarrow> event_height list \<Rightarrow> hstate \<Rightarrow> hstate" where
  "run_height g [] s = s"
| "run_height g (e # es) s = run_height g es (dispatch_height g e s)"

text \<open>
  An event is \<open>convertible\<close> when the position its click picks, if any, has a geodetic
  conversion: every position off the centre of the ellipsoid has.
\<close>

fun convertible :: "ellipsoid \<Rightarrow> event_height \<Rightarrow> bool" where
  "convertible g (LeftClick_height w) =
     (case pickWorldPosition (Some w) of
        None \<Rightarrow> True
      | Some pos \<Rightarrow> fromCartesian g pos \<noteq> None)"
| "convertible g _ = True"

text \<open>
  Between two events the height tool is \<open>settled\<close>: the handler is attached exactly while
  drawing, the buffer holds at most one point, and that point has a conversion.
\<close>

definition settled :: "ellipsoid \<Rightarrow> hstate \<Rightarrow> bool" where
  "settled g s \<longleftrightarrow> handler s = isDrawing s \<and> length (pts s) \<le> 1
     \<and> list_all (\<lambda>p. fromCartesian g p \<noteq> None) (pts s)"

text \<open>
  A stand-in for the ellipsoid, to run the model on concrete points: longitude, latitude
  and height are read off the three coordinates, and the origin has no conversion.
\<close>

definition gridEllipsoid :: ellipsoid where
  "gridEllipsoid =
     \<lparr>fromCartesian = (\<lambda>p. if cx p = 0 \<and> cy p = 0 \<and> cz p = 0 then None
                           else Some \<lparr>longitude = cx p, latitude = cy p, height = cz p\<rparr>),
      fromRadians = (\<lambda>lon lat h. \<lparr>cx = lon, cy = lat, cz = h\<rparr>)\<rparr>"

section \<open>The terrain-profile tool: profile identifiers\<close>

text \<open>
  \<^verbatim>\<open>"G" + profileCounter\<close> appends the decimal digits of the counter. JavaScript's conversion
  of a whole number to a string, for the counter's values (whole numbers from 1 on, far
  below \<open>2\<^sup>5\<^sup>3\<close>, up to which a JavaScript number counts exactly):
\<close>

definition digit :: "nat \<Rightarrow> char" where
  "digit d = ''0123456789'' ! d"

function numberToString :: "nat \<Rightarrow> string" where
  "numberToString n =
     (if n < 10 then [digit n] else numberToString (n div 10) @ [digit (n mod 10)])"
  by pat_completeness auto
termination
  by (relation "measure (\<lambda>n. n)") auto

declare numberToString.simps [simp del]

text \<open>
  Of a profile the model keeps the identifier and the sampled line; of the tool's state the
  counter, the stored profiles, the active identifier and the options of the two dropdowns
  (\<open>graphSelect\<close>, \<open>deleteSelect\<close>). The chart, the canvases and the entities on the globe take
  no part in how identifiers are given out.
\<close>

record profile =
  id_profile :: string
  cartesianPositions :: "cartesian3 list"
  heights :: "real list"

record tstate =
  profileCounter :: nat
  profiles :: "profile list"
  activeProfileId :: "string option"
  graphSelect :: "string list"
  deleteSelect :: "string list"

definition initTerrainSection :: tstate where
  "initTerrainSection =
     \<lparr>profileCounter = 0, profiles = [], activeProfileId = None,
      graphSelect = [], deleteSelect = []\<rparr>"

definition createNewProfileId :: "tstate \<Rightarrow> string \<times> tstate" where
  "createNewProfileId s =
     (let s1 = s\<lparr>profileCounter := profileCounter s + 1\<rparr>
      in (''G'' @ numberToString (profileCounter s1), s1))"

text \<open>
  The end of \<open>generateTerrainProfile\<close>, once the terrain samples have arrived: take a new
  identifier, convert the first sampled position for the label (a missing first position
  or a conversion that comes back \<open>undefined\<close> makes the next property access throw, after
  the counter has been incremented), add the identifier to both dropdowns, store the profile
  and make it the active one.
\<close>

definition registerProfile ::
  "ellipsoid \<Rightarrow> cartesian3 list \<Rightarrow> real list \<Rightarrow> tstate \<Rightarrow> tstate completion" where
  "registerProfile g positions hs s =
     (let (ident, s1) = createNewProfileId s
      in (case positions of
            [] \<Rightarrow> Thrown TypeError s1
          | first # rest \<Rightarrow>
              (case fromCartesian g first of
                 None \<Rightarrow> Thrown TypeError s1
               | Some firstCarto \<Rightarrow>
                   Normal (s1\<lparr>graphSelect := graphSelect s1 @ [ident],
                               deleteSelect := deleteSelect s1 @ [ident],
                               profiles := profiles s1 @
                                 [\<lparr>id_profile = ident, cartesianPositions = positions,
                                   heights = hs\<rparr>],
                               activeProfileId := Some ident\<rparr>))))"

text \<open>
  The click handler of the delete button, with the value of \<open>deleteSelect\<close> (empty when
  nothing is selected): find the profile's index (\<open>findIndex\<close> gives \<open>None\<close> for JavaScript's
  \<open>-1\<close>), splice it out, remove its options, and activate the first remaining profile if
  there is one.
\<close>

fun findIndex :: "('a \<Rightarrow> bool) \<Rightarrow> 'a list \<Rightarrow> nat option" where
  "findIndex P [] = None"
| "findIndex P (x # xs) = (if P x then Some 0 else map_option Suc (findIndex P xs))"

definition deleteClick :: "string \<Rightarrow> tstate \<Rightarrow> tstate" where
  "deleteClick ident s =
     (if ident = [] then s
      else
        (case findIndex (\<lambda>p. id_profile p = ident) (profiles s) of
           None \<Rightarrow> s
         | Some index \<Rightarrow>
             (let s1 = s\<lparr>profiles := take index (profiles s) @ drop (index + 1) (profiles s),
                         graphSelect := filter (\<lambda>v. v \<noteq> ident) (graphSelect s),
                         deleteSelect := filter (\<lambda>v. v \<noteq> ident) (deleteSelect s)\<rparr>
              in (case profiles s1 of
                    [] \<Rightarrow> s1\<lparr>activeProfileId := None\<rparr>
                  | p # ps \<Rightarrow> s1\<lparr>activeProfileId := Some (id_profile p)\<rparr>))))"

datatype event_terrain =
    Sampled "cartesian3 list" "real list"
  | DeleteButton string

fun dispatch_terrain :: "ellipsoid \<Rightarrow> event_terrain \<Rightarrow> tstate \<Rightarrow> tstate" where
  "dispatch_terrain g (Sampled positions hs) s = state_of (registerProfile g positions hs s)"
| "dispatch_terrain g (DeleteButton ident) s = deleteClick ident s"

fun run_terrain :: "ellipsoid \<Rightarrow> event_terrain list \<Rightarrow> tstate \<Rightarrow> tstate" where
  "run_terrain g [] s = s"
| "run_terrain g (e # es) s = run_terrain g es (dispatch_terrain g e s)"

text \<open>
  \<open>created\<close> lists, in order, the identifiers of the profiles a run of events creates.
  \<open>creation\<close> says that an event is a profile creation: terrain samples whose first position
  has a conversion; deletions pass.
\<close>

fun created :: "ellipsoid \<Rightarrow> event_terrain list \<Rightarrow> tstate \<Rightarrow> string list" where
  "created g [] s = []"
| "created g (Sampled positions hs # es) s =
     (case registerProfile g positions hs s of
        Normal s1 \<Rightarrow> [id_profile (last (profiles s1))]
      | Thrown e s1 \<Rightarrow> [])
     @ created g es (dispatch_terrain g (Sampled positions hs) s)"
| "created g (DeleteButton ident # es) s = created g es (dispatch_terrain g (DeleteButton ident) s)"

fun creation :: "ellipsoid \<Rightarrow> event_terrain \<Rightarrow> bool" where
  "creation g (Sampled positions hs) =
     (case positions of [] \<Rightarrow> False | first # rest \<Rightarrow> fromCartesian g first \<noteq> None)"
| "creation g (DeleteButton ident) = False"

fun creation_or_deletion :: "ellipsoid \<Rightarrow> event_terrain \<Rightarrow> bool" where
  "creation_or_deletion g (DeleteButton ident) = True"
| "creation_or_deletion g e = creation g e"

text \<open>
  Between two events of a session of creations and deletions the stored profiles are
  \<open>numbered\<close>: their identifiers differ from one another and each is \<open>G\<close> followed by a
  number from 1 up to the counter.
\<close>

definition numbered :: "tstate \<Rightarrow> bool" where
  "numbered s \<longleftrightarrow> distinct (map id_profile (profiles s))
     \<and> list_all (\<lambda>p. \<exists>n. 1 \<le> n \<and> n \<le> profileCounter s \<and> id_profile p = ''G'' @ numberToString n)
         (profiles s)"

section \<open>Polyline length: the loop computes the sum over consecutive pairs\<close>

lemma computeLength_loop_step:
  "i < length ps \<Longrightarrow>
   computeLength_loop ps i s = computeLength_loop ps (Suc i) (s + distance (ps ! (i - 1)) (ps ! i))"
  by (subst computeLength_loop.simps) simp

lemma computeLength_loop_done:
  "length ps \<le> i \<Longrightarrow> computeLength_loop ps i s = s"
  by (subst computeLength_loop.simps) simp

lemma consecutive_distance_sum_short:
  "length qs \<le> 1 \<Longrightarrow> consecutive_distance_sum qs = 0"
  by (cases qs rule: consecutive_distance_sum.cases) auto

lemma computeLength_loop_drop:
  "0 < i \<Longrightarrow> computeLength_loop ps i s = s + consecutive_distance_sum (drop (i - 1) ps)"
proof (induction ps i s rule: computeLength_loop.induct)
  case (1 ps i s)
  show ?case
  proof (cases "i < length ps")
    case True
    then obtain j where j: "i = Suc j" using "1.prems" by (cases i) auto
    have d1: "drop j ps = ps ! j # drop (Suc j) ps"
      using True j by (simp add: Cons_nth_drop_Suc)
    have d2: "drop (Suc j) ps = ps ! Suc j # drop (Suc (Suc j)) ps"
      using True j by (simp add: Cons_nth_drop_Suc)
    have "computeLength_loop ps i s
            = computeLength_loop ps (i + 1) (s + distance (ps ! (i - 1)) (ps ! i))"
      using True by (simp add: computeLength_loop_step)
    also have "\<dots> = (s + distance (ps ! (i - 1)) (ps ! i))
                      + consecutive_distance_sum (drop ((i + 1) - 1) ps)"
      using "1.IH" [OF True] by simp
    also have "\<dots> = s + consecutive_distance_sum (drop (i - 1) ps)"
      using j d1 d2 by simp
    finally show ?thesis .
  next
    case False
    then have "length (drop (i - 1) ps) \<le> 1" by simp
    then have "consecutive_distance_sum (drop (i - 1) ps) = 0"
      by (rule consecutive_distance_sum_short)
    with False show ?thesis by (simp add: computeLength_loop_done)
  qed
qed

lemma computeLength_sum: "computeLength ps = consecutive_distance_sum ps"
  by (simp add: computeLength_def computeLength_loop_drop)

lemma distance_axis_3: "distance \<lparr>cx = 0, cy = 0, cz = 0\<rparr> \<lparr>cx = 3, cy = 0, cz = 0\<rparr> = 3"
proof -
  have "sqrt ((3::real)\<^sup>2) = 3" by simp
  then show ?thesis by (simp add: distance_def)
qed

lemma distance_axis_4: "distance \<lparr>cx = 3, cy = 0, cz = 0\<rparr> \<lparr>cx = 3, cy = 4, cz = 0\<rparr> = 4"
proof -
  have "sqrt ((4::real)\<^sup>2) = 4" by simp
  then show ?thesis by (simp add: distance_def)
qed

text \<open>
  Claim C7. The length computed by \<open>computeLength\<close> is the sum of the Euclidean distances
  between consecutive vertices of the position list, and for the points
  (0,0,0), (3,0,0), (3,4,0) it is 7.
\<close>

theorem computeLength_is_consecutive_sum:
  "computeLength ps = consecutive_distance_sum ps
   \<and> computeLength ps = (\<Sum>i = 1..<length ps. distance (ps ! (i - 1)) (ps ! i))
   \<and> computeLength [\<lparr>cx = 0, cy = 0, cz = 0\<rparr>, \<lparr>cx = 3, cy = 0, cz = 0\<rparr>,
                     \<lparr>cx = 3, cy = 4, cz = 0\<rparr>] = 7"
proof -
  have idx: "consecutive_distance_sum qs = (\<Sum>i = 1..<length qs. distance (qs ! (i - 1)) (qs ! i))"
    for qs
  proof (induction qs rule: consecutive_distance_sum.induct)
    case (1 p q ps)
    have "(\<Sum>i = 1..<length (p # q # ps). distance ((p # q # ps) ! (i - 1)) ((p # q # ps) ! i))
          = distance p q
            + (\<Sum>i = Suc 1..<length (p # q # ps). distance ((p # q # ps) ! (i - 1)) ((p # q # ps) ! i))"
      by (subst sum.atLeast_Suc_lessThan) simp_all
    also have "(\<Sum>i = Suc 1..<length (p # q # ps). distance ((p # q # ps) ! (i - 1)) ((p # q # ps) ! i))
          = (\<Sum>i = 1..<length (q # ps). distance ((q # ps) ! (i - 1)) ((q # ps) ! i))"
      by (rule sum.reindex_bij_witness [where i = Suc and j = "\<lambda>i. i - 1"]) auto
    finally show ?case using 1 by simp
  qed simp_all
  have seven: "consecutive_distance_sum [\<lparr>cx = 0, cy = 0, cz = 0\<rparr>, \<lparr>cx = 3, cy = 0, cz = 0\<rparr>,
                     \<lparr>cx = 3, cy = 4, cz = 0\<rparr>] = 7"
    by (simp add: distance_axis_3 distance_axis_4)
  show ?thesis
    unfolding computeLength_sum using idx [of ps] seven by blast
qed

section \<open>Measure-distance: events that change nothing\<close>

text \<open>
  Claim C4. Pressing Escape while the tool is drawing and the vertex buffer is empty leaves
  the whole tool state as it was: the buffer, every variable and the entity collection.
  The handler has no failing branch, so nothing is raised.
\<close>

theorem escape_on_empty_buffer_is_noop:
  "isDrawing s \<Longrightarrow> pts s = [] \<Longrightarrow>
   escHandler ''Escape'' s = s \<and> dispatch (KeyDown ''Escape'') s = s"
  by (simp add: escHandler_def)

theorem escape_on_empty_buffer_is_noop_witness:
  "isDrawing (startDrawing (initMeasureDistance \<lparr>objects = [], shown = []\<rparr>))
   \<and> pts (startDrawing (initMeasureDistance \<lparr>objects = [], shown = []\<rparr>)) = []
   \<and> dispatch (KeyDown ''Escape'') (startDrawing (initMeasureDistance \<lparr>objects = [], shown = []\<rparr>))
       = startDrawing (initMeasureDistance \<lparr>objects = [], shown = []\<rparr>)"
proof -
  let ?s = "startDrawing (initMeasureDistance \<lparr>objects = [], shown = []\<rparr>)"
  have d: "isDrawing ?s" and e: "pts ?s = []"
    by (simp_all add: startDrawing_def)
  from escape_on_empty_buffer_is_noop [OF d e] d e show ?thesis by blast
qed

text \<open>
  Claim C5. A click or a pointer move whose screen position does not resolve to a world
  position returns with the tool state as it was: the buffer is not changed and no entity
  is created, removed or updated.
\<close>

theorem pick_miss_is_ignored:
  "leftClick None s = s \<and> mouseMove None s = s
   \<and> dispatch (LeftClick None) s = s \<and> dispatch (MouseMove None) s = s"
  by (simp add: leftClick_def mouseMove_def split: option.split)

section \<open>Measure-distance: the reachable states\<close>

lemmas tool_defs = initMeasureDistance_def startDrawing_def stopDrawing_def toggleDrawing_def
  leftClick_def mouseMove_def doubleClick_def escHandler_def clearAll_def finalizeLine_def
  createMarker_def add_def remove_def setPosition_def setGraphics_def

lemma consistent_init: "consistent (initMeasureDistance v)"
  by (simp add: consistent_def initMeasureDistance_def)

lemma consistent_stopDrawing: "consistent (stopDrawing s)"
  by (simp add: consistent_def stopDrawing_def Let_def split: option.splits)

lemma consistent_startDrawing: "consistent (startDrawing s)"
  by (simp add: consistent_def startDrawing_def)

lemma consistent_leftClick: "consistent s \<Longrightarrow> handler s \<Longrightarrow> consistent (leftClick x s)"
  by (auto simp: consistent_def leftClick_def createMarker_def add_def Let_def split: option.splits)

lemma consistent_mouseMove: "consistent s \<Longrightarrow> handler s \<Longrightarrow> consistent (mouseMove x s)"
  by (auto simp: consistent_def mouseMove_def Let_def split: option.splits)

lemma consistent_doubleClick: "consistent s \<Longrightarrow> consistent (doubleClick s)"
  by (auto simp: consistent_def doubleClick_def finalizeLine_def add_def Let_def split: option.splits)

lemma consistent_escHandler: "consistent s \<Longrightarrow> consistent (escHandler k s)"
  by (auto simp: consistent_def escHandler_def Let_def split: option.splits dest: in_set_butlastD)

lemma consistent_dispatch: "consistent s \<Longrightarrow> consistent (dispatch e s)"
  by (cases e)
     (simp_all add: toggleDrawing_def clearAll_def Let_def consistent_stopDrawing
        consistent_startDrawing consistent_leftClick consistent_mouseMove
        consistent_doubleClick consistent_escHandler)

lemma consistent_run: "consistent s \<Longrightarrow> consistent (run es s)"
  by (induction es arbitrary: s) (simp_all add: consistent_dispatch)

lemma run_append: "run (xs @ ys) s = run ys (run xs s)"
  by (induction xs arbitrary: s) simp_all

section \<open>Measure-distance: the floating point\<close>

lemma list_update_last: "xs \<noteq> [] \<Longrightarrow> xs[length xs - Suc 0 := p] = butlast xs @ [p]"
  by (induction xs rule: rev_induct) (simp_all add: list_update_append)

lemma pts_mouseMove:
  "floatPt s = Some f \<Longrightarrow> pts s \<noteq> [] \<Longrightarrow> pts (mouseMove (Some p) s) = butlast (pts s) @ [p]"
  by (simp add: mouseMove_def Let_def list_update_last split: option.splits)

lemma pts_leftClick: "pts (leftClick (Some p) s) = butlast (pts s) @ [p, p]"
  by (simp add: leftClick_def createMarker_def add_def Let_def list_update_last)

lemma pts_growth:
  assumes "length (pts s) < length (pts (dispatch e s))"
  shows "\<exists>p. e = LeftClick (Some p)"
proof (cases e)
  case (LeftClick x)
  with assms show ?thesis by (cases x) (auto simp: leftClick_def split: if_splits)
next
  case (MouseMove x)
  with assms show ?thesis
    by (auto simp: mouseMove_def Let_def split: option.splits if_splits)
next
  case LeftDoubleClick
  with assms show ?thesis
    by (auto simp: doubleClick_def finalizeLine_def add_def Let_def split: option.splits if_splits)
next
  case (KeyDown k)
  with assms show ?thesis
    by (auto simp: escHandler_def Let_def split: option.splits if_splits)
next
  case StartButton
  with assms show ?thesis
    by (auto simp: toggleDrawing_def startDrawing_def stopDrawing_def Let_def
          split: option.splits if_splits)
next
  case ClearButton
  with assms show ?thesis
    by (auto simp: stopDrawing_def clearAll_def Let_def split: option.splits)
next
  case (PanelStyle b)
  with assms show ?thesis
    by (auto simp: stopDrawing_def Let_def split: option.splits if_splits)
next
  case Stop
  with assms show ?thesis
    by (auto simp: stopDrawing_def Let_def split: option.splits)
qed

text \<open>
  What holds of the buffer while a line is drawn. In every state the tool reaches, while it
  is drawing and the vertex buffer is not empty, a pointer move that resolves to a position
  overwrites the last element of the buffer with that position: the length and the elements
  before it stay as they were. A click fixes the clicked position in that last place and
  appends a new floating element, and no event other than a resolving click makes the
  buffer longer.
\<close>

theorem pointer_move_overwrites_floating_point:
  assumes "s = run es (initMeasureDistance v)" and "isDrawing s" and "pts s \<noteq> []"
  shows "pts (dispatch (MouseMove (Some pos)) s) = (pts s)[length (pts s) - 1 := pos]
       \<and> length (pts (dispatch (MouseMove (Some pos)) s)) = length (pts s)
       \<and> last (pts (dispatch (MouseMove (Some pos)) s)) = pos
       \<and> butlast (pts (dispatch (MouseMove (Some pos)) s)) = butlast (pts s)
       \<and> pts (dispatch (LeftClick (Some pos)) s) = butlast (pts s) @ [pos, pos]
       \<and> (\<forall>e. length (pts s) < length (pts (dispatch e s)) \<longrightarrow> (\<exists>p. e = LeftClick (Some p)))"
proof -
  have c: "consistent s"
    using assms(1) by (simp add: consistent_run consistent_init)
  then have h: "handler s" and "\<exists>f. floatPt s = Some f"
    using assms(2,3) by (auto simp: consistent_def)
  then obtain f where f: "floatPt s = Some f" by blast
  have m: "pts (dispatch (MouseMove (Some pos)) s) = butlast (pts s) @ [pos]"
    using h f assms(3) by (simp add: pts_mouseMove)
  have k: "pts (dispatch (LeftClick (Some pos)) s) = butlast (pts s) @ [pos, pos]"
    using h by (simp add: pts_leftClick)
  show ?thesis
    using m k assms(3) pts_growth [of s] by (simp add: list_update_last)
qed

theorem pointer_move_overwrites_floating_point_witness:
  "isDrawing (run [StartButton, LeftClick (Some \<lparr>cx = 1, cy = 2, cz = 3\<rparr>)]
               (initMeasureDistance \<lparr>objects = [], shown = []\<rparr>))
   \<and> pts (run [StartButton, LeftClick (Some \<lparr>cx = 1, cy = 2, cz = 3\<rparr>)]
               (initMeasureDistance \<lparr>objects = [], shown = []\<rparr>))
       = [\<lparr>cx = 1, cy = 2, cz = 3\<rparr>, \<lparr>cx = 1, cy = 2, cz = 3\<rparr>]
   \<and> pts (dispatch (MouseMove (Some \<lparr>cx = 5, cy = 6, cz = 7\<rparr>))
           (run [StartButton, LeftClick (Some \<lparr>cx = 1, cy = 2, cz = 3\<rparr>)]
              (initMeasureDistance \<lparr>objects = [], shown = []\<rparr>)))
       = [\<lparr>cx = 1, cy = 2, cz = 3\<rparr>, \<lparr>cx = 5, cy = 6, cz = 7\<rparr>]"
proof -
  let ?s = "run [StartButton, LeftClick (Some \<lparr>cx = 1, cy = 2, cz = 3\<rparr>)]
              (initMeasureDistance \<lparr>objects = [], shown = []\<rparr>)"
  have d: "isDrawing ?s"
    by (simp add: tool_defs Let_def)
  have p: "pts ?s = [\<lparr>cx = 1, cy = 2, cz = 3\<rparr>, \<lparr>cx = 1, cy = 2, cz = 3\<rparr>]"
    by (simp add: tool_defs Let_def)
  then have n: "pts ?s \<noteq> []" by simp
  from pointer_move_overwrites_floating_point [OF refl d n, of "\<lparr>cx = 5, cy = 6, cz = 7\<rparr>"]
  have "pts (dispatch (MouseMove (Some \<lparr>cx = 5, cy = 6, cz = 7\<rparr>)) ?s)
          = (pts ?s)[length (pts ?s) - 1 := \<lparr>cx = 5, cy = 6, cz = 7\<rparr>]"
    by blast
  with d p show ?thesis by simp
qed

section \<open>Measure-distance: finalizing a line\<close>

lemma handler_leftClick: "handler (leftClick x s) = handler s"
  by (simp add: leftClick_def createMarker_def add_def Let_def split: option.splits)

lemma measuredLines_leftClick: "measuredLines (leftClick x s) = measuredLines s"
  by (simp add: leftClick_def createMarker_def add_def Let_def split: option.splits)

lemma run_clicks:
  "handler s \<Longrightarrow> ps \<noteq> [] \<Longrightarrow>
   pts (run (clicks ps) s) = butlast (pts s) @ ps @ [last ps]
   \<and> handler (run (clicks ps) s) \<and> measuredLines (run (clicks ps) s) = measuredLines s"
proof (induction ps arbitrary: s)
  case Nil
  then show ?case by simp
next
  case (Cons p ps)
  show ?case
  proof (cases "ps = []")
    case True
    with Cons.prems show ?thesis
      by (simp add: clicks_def pts_leftClick handler_leftClick measuredLines_leftClick)
  next
    case False
    have h: "handler (leftClick (Some p) s)"
      using Cons.prems by (simp add: handler_leftClick)
    from Cons.IH [OF h False] Cons.prems False show ?thesis
      by (simp add: clicks_def pts_leftClick measuredLines_leftClick butlast_append)
  qed
qed

lemma finalizedPolylines_doubleClick:
  "measuredLines s = [] \<Longrightarrow> 2 \<le> length (pts s) \<Longrightarrow>
   finalizedPolylines (doubleClick s) = [Polyline Red (pts s)]"
  by (simp add: finalizedPolylines_def doubleClick_def finalizeLine_def add_def remove_def Let_def
        nth_append split: option.splits)

text \<open>
  What the code does for every number of clicks: after \<open>N \<ge> 1\<close> resolving clicks and a
  double-click, the permanent line has the \<open>N\<close> clicked positions and then the floating
  point, \<open>N + 1\<close> vertices.
\<close>

lemma finalized_line_has_one_vertex_more:
  assumes "ps \<noteq> []"
  shows "finalizedPolylines
           (run (StartButton # clicks ps @ [LeftDoubleClick]) (initMeasureDistance v))
         = [Polyline Red (ps @ [last ps])]"
proof -
  let ?s0 = "startDrawing (initMeasureDistance v)"
  have h0: "handler ?s0" and p0: "pts ?s0 = []" and m0: "measuredLines ?s0 = []"
    by (simp_all add: startDrawing_def initMeasureDistance_def)
  from run_clicks [OF h0 assms] p0 m0
  have r: "pts (run (clicks ps) ?s0) = ps @ [last ps]" "handler (run (clicks ps) ?s0)"
    "measuredLines (run (clicks ps) ?s0) = []"
    by simp_all
  have len: "2 \<le> length (pts (run (clicks ps) ?s0))"
    using assms r(1) by (cases ps) simp_all
  have "run (StartButton # clicks ps @ [LeftDoubleClick]) (initMeasureDistance v)
          = doubleClick (run (clicks ps) ?s0)"
    using r(2) by (simp add: run_append toggleDrawing_def initMeasureDistance_def)
  then show ?thesis
    using finalizedPolylines_doubleClick [OF r(3) len] r(1) by simp
qed

text \<open>
  Claim C1, evaluated on the code. A click at A and a physical double-click at B deliver
  three clicks and a double-click event: the permanent line then has four vertices, not
  three. With a pointer move to C between the second click and the double-click event the
  permanent line ends in C, the floating point.
\<close>

theorem finalized_line_includes_floating_point:
  "finalizedPolylines
     (run [StartButton, LeftClick (Some \<lparr>cx = 0, cy = 0, cz = 0\<rparr>), LeftClick (Some \<lparr>cx = 3, cy = 0, cz = 0\<rparr>), LeftClick (Some \<lparr>cx = 3, cy = 0, cz = 0\<rparr>),
           LeftDoubleClick]
        (initMeasureDistance \<lparr>objects = [], shown = []\<rparr>))
   = [Polyline Red [\<lparr>cx = 0, cy = 0, cz = 0\<rparr>, \<lparr>cx = 3, cy = 0, cz = 0\<rparr>, \<lparr>cx = 3, cy = 0, cz = 0\<rparr>, \<lparr>cx = 3, cy = 0, cz = 0\<rparr>]]
   \<and> finalizedPolylines
     (run [StartButton, LeftClick (Some \<lparr>cx = 0, cy = 0, cz = 0\<rparr>), LeftClick (Some \<lparr>cx = 3, cy = 0, cz = 0\<rparr>), MouseMove (Some \<lparr>cx = 3, cy = 4, cz = 0\<rparr>),
           LeftDoubleClick]
        (initMeasureDistance \<lparr>objects = [], shown = []\<rparr>))
   = [Polyline Red [\<lparr>cx = 0, cy = 0, cz = 0\<rparr>, \<lparr>cx = 3, cy = 0, cz = 0\<rparr>, \<lparr>cx = 3, cy = 4, cz = 0\<rparr>]]"
  by (simp add: finalizedPolylines_def tool_defs Let_def)

text \<open>
  Claim C6, evaluated on the code. The pointer moves overwrite the last element of the
  buffer as the claim says, but a click is not the only way for that element to become
  permanent. After clicks at A and B and a pointer move to C the buffer is \<open>[A, B, C]\<close>
  with committed vertices A and B; no click is made at C. The double-click event, also when
  the two clicks that come with it resolve to no position, puts the whole buffer into the
  permanent line: C, the floating element, is its last vertex and the place of the
  permanent label.
\<close>

theorem double_click_makes_floating_point_permanent:
  "pts (run [StartButton, LeftClick (Some \<lparr>cx = 0, cy = 0, cz = 0\<rparr>), LeftClick (Some \<lparr>cx = 3, cy = 0, cz = 0\<rparr>), MouseMove (Some \<lparr>cx = 3, cy = 4, cz = 0\<rparr>)]
          (initMeasureDistance \<lparr>objects = [], shown = []\<rparr>)) = [\<lparr>cx = 0, cy = 0, cz = 0\<rparr>, \<lparr>cx = 3, cy = 0, cz = 0\<rparr>, \<lparr>cx = 3, cy = 4, cz = 0\<rparr>]
   \<and> committedVertices
         (run [StartButton, LeftClick (Some \<lparr>cx = 0, cy = 0, cz = 0\<rparr>), LeftClick (Some \<lparr>cx = 3, cy = 0, cz = 0\<rparr>), MouseMove (Some \<lparr>cx = 3, cy = 4, cz = 0\<rparr>)]
            (initMeasureDistance \<lparr>objects = [], shown = []\<rparr>)) = [\<lparr>cx = 0, cy = 0, cz = 0\<rparr>, \<lparr>cx = 3, cy = 0, cz = 0\<rparr>]
   \<and> finalizedPolylines
         (dispatch LeftDoubleClick
            (run [StartButton, LeftClick (Some \<lparr>cx = 0, cy = 0, cz = 0\<rparr>), LeftClick (Some \<lparr>cx = 3, cy = 0, cz = 0\<rparr>), MouseMove (Some \<lparr>cx = 3, cy = 4, cz = 0\<rparr>)]
               (initMeasureDistance \<lparr>objects = [], shown = []\<rparr>)))
       = [Polyline Red [\<lparr>cx = 0, cy = 0, cz = 0\<rparr>, \<lparr>cx = 3, cy = 0, cz = 0\<rparr>, \<lparr>cx = 3, cy = 4, cz = 0\<rparr>]]
   \<and> finalizedPolylines
         (run [StartButton, LeftClick (Some \<lparr>cx = 0, cy = 0, cz = 0\<rparr>), LeftClick (Some \<lparr>cx = 3, cy = 0, cz = 0\<rparr>), MouseMove (Some \<lparr>cx = 3, cy = 4, cz = 0\<rparr>),
               LeftClick None, LeftClick None, LeftDoubleClick]
            (initMeasureDistance \<lparr>objects = [], shown = []\<rparr>))
       = [Polyline Red [\<lparr>cx = 0, cy = 0, cz = 0\<rparr>, \<lparr>cx = 3, cy = 0, cz = 0\<rparr>, \<lparr>cx = 3, cy = 4, cz = 0\<rparr>]]
   \<and> map (\<lambda>r. position (objects (viewer
              (run [StartButton, LeftClick (Some \<lparr>cx = 0, cy = 0, cz = 0\<rparr>), LeftClick (Some \<lparr>cx = 3, cy = 0, cz = 0\<rparr>), MouseMove (Some \<lparr>cx = 3, cy = 4, cz = 0\<rparr>),
                    LeftClick None, LeftClick None, LeftDoubleClick]
                 (initMeasureDistance \<lparr>objects = [], shown = []\<rparr>))) ! r))
         (measuredLabels
            (run [StartButton, LeftClick (Some \<lparr>cx = 0, cy = 0, cz = 0\<rparr>), LeftClick (Some \<lparr>cx = 3, cy = 0, cz = 0\<rparr>), MouseMove (Some \<lparr>cx = 3, cy = 4, cz = 0\<rparr>),
                  LeftClick None, LeftClick None, LeftDoubleClick]
               (initMeasureDistance \<lparr>objects = [], shown = []\<rparr>)))
       = [Some \<lparr>cx = 3, cy = 4, cz = 0\<rparr>]"
  by (simp add: finalizedPolylines_def committedVertices_def tool_defs Let_def)

text \<open>
  Claim C3 as the code has it. The guard of the double-click handler is on the length of
  the buffer, which counts the floating point: a double-click finalizes exactly when the
  buffer holds at least two points (one committed vertex and the floating point are
  enough). Below that the double-click is ignored and the whole state, buffer and entities,
  stays as it was; otherwise the temporary helpers are dropped, the permanent red line gets
  the buffer's points, the permanent label sits at the last of them with the line's
  length, and the buffer is emptied.
\<close>

theorem double_click_guard_counts_floating_point:
  "(length (measuredLines (doubleClick s)) = Suc (length (measuredLines s))) = (2 \<le> length (pts s))
   \<and> (doubleClick s = s) = (length (pts s) < 2)
   \<and> (if length (pts s) < 2 then doubleClick s = s
       else pts (doubleClick s) = []
          \<and> floatPt (doubleClick s) = None \<and> lineEnt (doubleClick s) = None
          \<and> dynamicLabel (doubleClick s) = None
          \<and> graphics (objects (viewer (doubleClick s)) ! last (measuredLines (doubleClick s)))
              = Polyline Red (pts s)
          \<and> objects (viewer (doubleClick s)) ! last (measuredLabels (doubleClick s))
              = \<lparr>position = Some (last (pts s)),
                 graphics = Label (Metres (computeLength (pts s)))\<rparr>)"
proof -
  have grow: "measuredLines (finalizeLine s) = measuredLines s @ [length (objects (viewer s))]"
    by (simp add: finalizeLine_def add_def remove_def Let_def split: option.splits)
  then have ne: "finalizeLine s \<noteq> s"
    by (metis append_self_conv not_Cons_self2)
  have rest: "pts (finalizeLine s) = [] \<and> floatPt (finalizeLine s) = None
        \<and> lineEnt (finalizeLine s) = None \<and> dynamicLabel (finalizeLine s) = None"
    by (simp add: finalizeLine_def add_def remove_def Let_def split: option.splits)
  have line: "graphics (objects (viewer (finalizeLine s)) ! last (measuredLines (finalizeLine s)))
        = Polyline Red (pts s)"
    unfolding grow
    by (simp add: finalizeLine_def add_def remove_def Let_def nth_append split: option.splits)
  have label: "pts s \<noteq> [] \<Longrightarrow>
        objects (viewer (finalizeLine s)) ! last (measuredLabels (finalizeLine s))
        = \<lparr>position = Some (last (pts s)), graphics = Label (Metres (computeLength (pts s)))\<rparr>"
    by (simp add: finalizeLine_def add_def remove_def Let_def nth_append split: option.splits)
  have "\<not> length (pts s) < 2 \<Longrightarrow> pts s \<noteq> []" by auto
  with grow ne rest line label show ?thesis
    by (simp add: doubleClick_def)
qed

theorem double_click_guard_counts_floating_point_witness:
  "pts (run [StartButton, LeftClick (Some \<lparr>cx = 0, cy = 0, cz = 0\<rparr>), KeyDown ''Escape''] (initMeasureDistance \<lparr>objects = [], shown = []\<rparr>)) = [\<lparr>cx = 0, cy = 0, cz = 0\<rparr>]
   \<and> doubleClick (run [StartButton, LeftClick (Some \<lparr>cx = 0, cy = 0, cz = 0\<rparr>), KeyDown ''Escape''] (initMeasureDistance \<lparr>objects = [], shown = []\<rparr>))
       = run [StartButton, LeftClick (Some \<lparr>cx = 0, cy = 0, cz = 0\<rparr>), KeyDown ''Escape''] (initMeasureDistance \<lparr>objects = [], shown = []\<rparr>)
   \<and> pts (run [StartButton, LeftClick (Some \<lparr>cx = 0, cy = 0, cz = 0\<rparr>)] (initMeasureDistance \<lparr>objects = [], shown = []\<rparr>)) = [\<lparr>cx = 0, cy = 0, cz = 0\<rparr>, \<lparr>cx = 0, cy = 0, cz = 0\<rparr>]
   \<and> pts (doubleClick (run [StartButton, LeftClick (Some \<lparr>cx = 0, cy = 0, cz = 0\<rparr>)] (initMeasureDistance \<lparr>objects = [], shown = []\<rparr>))) = []
   \<and> graphics (objects (viewer (doubleClick (run [StartButton, LeftClick (Some \<lparr>cx = 0, cy = 0, cz = 0\<rparr>)] (initMeasureDistance \<lparr>objects = [], shown = []\<rparr>))))
        ! last (measuredLines (doubleClick (run [StartButton, LeftClick (Some \<lparr>cx = 0, cy = 0, cz = 0\<rparr>)] (initMeasureDistance \<lparr>objects = [], shown = []\<rparr>)))))
       = Polyline Red [\<lparr>cx = 0, cy = 0, cz = 0\<rparr>, \<lparr>cx = 0, cy = 0, cz = 0\<rparr>]"
proof -
  let ?s1 = "run [StartButton, LeftClick (Some \<lparr>cx = 0, cy = 0, cz = 0\<rparr>), KeyDown ''Escape''] (initMeasureDistance \<lparr>objects = [], shown = []\<rparr>)"
  let ?s2 = "run [StartButton, LeftClick (Some \<lparr>cx = 0, cy = 0, cz = 0\<rparr>)] (initMeasureDistance \<lparr>objects = [], shown = []\<rparr>)"
  have p1: "pts ?s1 = [\<lparr>cx = 0, cy = 0, cz = 0\<rparr>]"
    by (simp add: tool_defs Let_def)
  have p2: "pts ?s2 = [\<lparr>cx = 0, cy = 0, cz = 0\<rparr>, \<lparr>cx = 0, cy = 0, cz = 0\<rparr>]"
    by (simp add: tool_defs Let_def)
  from double_click_guard_counts_floating_point [of ?s1] p1
  have a: "doubleClick ?s1 = ?s1"
    by simp
  from double_click_guard_counts_floating_point [of ?s2] p2
  have b: "pts (doubleClick ?s2) = []
      \<and> graphics (objects (viewer (doubleClick ?s2)) ! last (measuredLines (doubleClick ?s2)))
          = Polyline Red [\<lparr>cx = 0, cy = 0, cz = 0\<rparr>, \<lparr>cx = 0, cy = 0, cz = 0\<rparr>]"
    by simp
  from p1 a p2 b show ?thesis by blast
qed

text \<open>
  Claim C3 as stated fails: after a single click the buffer holds one committed vertex,
  fewer than the two of a line, and the double-click still finalizes: a permanent line and
  label are created, the three temporary entities leave the collection and the buffer is
  emptied.
\<close>

theorem one_click_then_double_click_finalizes:
  "length (committedVertices (run [StartButton, LeftClick (Some \<lparr>cx = 0, cy = 0, cz = 0\<rparr>)] (initMeasureDistance \<lparr>objects = [], shown = []\<rparr>))) = 1
   \<and> measuredLines (run [StartButton, LeftClick (Some \<lparr>cx = 0, cy = 0, cz = 0\<rparr>), LeftDoubleClick]
                      (initMeasureDistance \<lparr>objects = [], shown = []\<rparr>)) = [3]
   \<and> pts (run [StartButton, LeftClick (Some \<lparr>cx = 0, cy = 0, cz = 0\<rparr>)] (initMeasureDistance \<lparr>objects = [], shown = []\<rparr>)) = [\<lparr>cx = 0, cy = 0, cz = 0\<rparr>, \<lparr>cx = 0, cy = 0, cz = 0\<rparr>]
   \<and> pts (run [StartButton, LeftClick (Some \<lparr>cx = 0, cy = 0, cz = 0\<rparr>), LeftDoubleClick] (initMeasureDistance \<lparr>objects = [], shown = []\<rparr>)) = []
   \<and> shown (viewer (run [StartButton, LeftClick (Some \<lparr>cx = 0, cy = 0, cz = 0\<rparr>)] (initMeasureDistance \<lparr>objects = [], shown = []\<rparr>))) = [0, 1, 2]
   \<and> shown (viewer (run [StartButton, LeftClick (Some \<lparr>cx = 0, cy = 0, cz = 0\<rparr>), LeftDoubleClick]
                      (initMeasureDistance \<lparr>objects = [], shown = []\<rparr>))) = [3, 4]"
  by (simp add: committedVertices_def tool_defs Let_def)

section \<open>Measure-distance: stopping\<close>

text \<open>
  Claim C2, evaluated on the code. After a start and one click the collection holds the
  marker (0), the preview line (1) and the live label (2). \<open>stopDrawing\<close> removes the label
  and the marker; the preview line stays in the collection and \<open>lineEnt\<close> still refers
  to it.
\<close>

theorem stop_leaves_preview_line_in_collection:
  "shown (viewer (run [StartButton, LeftClick (Some \<lparr>cx = 0, cy = 0, cz = 0\<rparr>)] (initMeasureDistance \<lparr>objects = [], shown = []\<rparr>))) = [0, 1, 2]
   \<and> lineEnt (run [StartButton, LeftClick (Some \<lparr>cx = 0, cy = 0, cz = 0\<rparr>), Stop] (initMeasureDistance \<lparr>objects = [], shown = []\<rparr>)) = Some 1
   \<and> shown (viewer (run [StartButton, LeftClick (Some \<lparr>cx = 0, cy = 0, cz = 0\<rparr>), Stop] (initMeasureDistance \<lparr>objects = [], shown = []\<rparr>))) = [1]
   \<and> graphics (objects (viewer (run [StartButton, LeftClick (Some \<lparr>cx = 0, cy = 0, cz = 0\<rparr>), Stop]
                                   (initMeasureDistance \<lparr>objects = [], shown = []\<rparr>))) ! 1) = PreviewPolyline True"
  by (simp add: tool_defs Let_def)

text \<open>
  The rest of what C2 says holds: stopping a tool that is not drawing changes nothing, and
  in every reachable state stopping leaves each finalized line, label and marker as it is,
  in the collection or out of it, with its entity object and in its list.
\<close>

lemma stop_when_idle_changes_nothing:
  assumes "s = run es (initMeasureDistance v)" and "\<not> isDrawing s"
  shows "stopDrawing s = s"
proof -
  have "consistent s"
    using assms(1) by (simp add: consistent_run consistent_init)
  with assms(2) show ?thesis
    by (cases s) (simp add: consistent_def stopDrawing_def Let_def)
qed

lemma objects_fold_remove: "objects (fold remove rs w) = objects w"
  by (induction rs arbitrary: w) (simp_all add: remove_def)

lemma shown_fold_remove: "set (shown (fold remove rs w)) = set (shown w) - set rs"
  by (induction rs arbitrary: w) (auto simp: remove_def)

lemma separate_init: "separate (initMeasureDistance v)"
  by (simp add: separate_def finalized_def inProgress_def initMeasureDistance_def)

lemma separate_stopDrawing: "separate s \<Longrightarrow> separate (stopDrawing s)"
  by (auto simp: separate_def finalized_def inProgress_def stopDrawing_def Let_def remove_def
        objects_fold_remove split: option.splits)

lemma separate_startDrawing: "separate s \<Longrightarrow> separate (startDrawing s)"
  by (auto simp: separate_def finalized_def inProgress_def startDrawing_def)

lemma separate_clearAll: "separate s \<Longrightarrow> separate (clearAll s)"
  by (auto simp: separate_def finalized_def inProgress_def clearAll_def stopDrawing_def Let_def remove_def
        objects_fold_remove split: option.splits)

lemma separate_leftClick: "separate s \<Longrightarrow> separate (leftClick x s)"
proof (cases x)
  case None
  then show ?thesis if "separate s" using that by (simp add: leftClick_def)
next
  case (Some pos)
  then show ?thesis if "separate s"
    using that
    by (auto simp: separate_def finalized_def inProgress_def leftClick_def createMarker_def
          add_def Let_def split: option.splits)
qed

lemma separate_mouseMove: "separate s \<Longrightarrow> separate (mouseMove x s)"
  by (auto simp: separate_def finalized_def inProgress_def mouseMove_def setPosition_def
        setGraphics_def Let_def split: option.splits)

lemma separate_doubleClick: "separate s \<Longrightarrow> separate (doubleClick s)"
  by (auto simp: separate_def finalized_def inProgress_def doubleClick_def finalizeLine_def
        add_def remove_def Let_def split: option.splits)

lemma separate_escHandler: "separate s \<Longrightarrow> separate (escHandler k s)"
  by (auto simp: separate_def finalized_def inProgress_def escHandler_def setPosition_def
        setGraphics_def remove_def Let_def split: option.splits dest: in_set_butlastD)

lemma separate_dispatch: "separate s \<Longrightarrow> separate (dispatch e s)"
  by (cases e)
     (simp_all add: toggleDrawing_def separate_stopDrawing separate_startDrawing
        separate_clearAll separate_leftClick separate_mouseMove separate_doubleClick
        separate_escHandler)

lemma separate_run: "separate s \<Longrightarrow> separate (run es s)"
  by (induction es arbitrary: s) (simp_all add: separate_dispatch)

lemma stop_keeps_finalized_entities:
  assumes "s = run es (initMeasureDistance v)" and "r \<in> finalized s"
  shows "(r \<in> set (shown (viewer (stopDrawing s)))) = (r \<in> set (shown (viewer s)))
       \<and> objects (viewer (stopDrawing s)) ! r = objects (viewer s) ! r
       \<and> finalized (stopDrawing s) = finalized s"
proof -
  have "separate s"
    using assms(1) by (simp add: separate_run separate_init)
  with assms(2) have n: "r \<notin> inProgress s"
    by (auto simp: separate_def)
  have sh: "set (shown (viewer (stopDrawing s))) = set (shown (viewer s)) - inProgress s"
    by (auto simp: stopDrawing_def inProgress_def Let_def shown_fold_remove remove_def
          split: option.splits)
  have ob: "objects (viewer (stopDrawing s)) = objects (viewer s)"
    by (simp add: stopDrawing_def Let_def objects_fold_remove remove_def split: option.splits)
  have fi: "finalized (stopDrawing s) = finalized s"
    by (simp add: finalized_def stopDrawing_def Let_def split: option.splits)
  from n sh ob fi show ?thesis by simp
qed

text \<open>
  A second way to the same defect: after a click and two presses of Escape the buffer is
  empty, and the next click creates a new preview line (4) and live label (5) without
  removing the old ones (1 and 2). Stopping then leaves the old label, reading \<open>0 m\<close>, and
  both preview lines in the collection.
\<close>

lemma stop_leaves_orphaned_label:
  "shown (viewer (run [StartButton, LeftClick (Some \<lparr>cx = 0, cy = 0, cz = 0\<rparr>), KeyDown ''Escape'', KeyDown ''Escape'',
                       LeftClick (Some \<lparr>cx = 3, cy = 0, cz = 0\<rparr>), Stop] (initMeasureDistance \<lparr>objects = [], shown = []\<rparr>))) = [1, 2, 4]
   \<and> graphics (objects (viewer (run [StartButton, LeftClick (Some \<lparr>cx = 0, cy = 0, cz = 0\<rparr>), KeyDown ''Escape'',
                       KeyDown ''Escape'', LeftClick (Some \<lparr>cx = 3, cy = 0, cz = 0\<rparr>), Stop] (initMeasureDistance \<lparr>objects = [], shown = []\<rparr>))) ! 2)
       = Label ZeroMetres"
  by (simp add: tool_defs Let_def)

section \<open>Measure-height: the three measurements\<close>

lemma sqrt_169: "sqrt 169 = 13"
proof -
  have "sqrt ((13::real)\<^sup>2) = 13" by simp
  then show ?thesis by simp
qed

lemma sqrt_25: "sqrt 25 = 5"
proof -
  have "sqrt ((5::real)\<^sup>2) = 5" by simp
  then show ?thesis by simp
qed

lemma computeMetrics_throws:
  "fromCartesian g p1 = None \<or> fromCartesian g p2 = None \<Longrightarrow>
   computeMetrics g p1 p2 = Inl TypeError"
  by (auto simp: computeMetrics_def split: option.splits)

text \<open>
  Claim C8. For two points that have geodetic conversions \<open>c1\<close> and \<open>c2\<close>, \<open>computeMetrics\<close>
  returns: as vertical measurement the absolute difference of the two heights; as
  horizontal measurement the distance from \<open>p1\<close> to the projection of \<open>p2\<close> onto the height
  of \<open>p1\<close>, the point with the longitude and latitude of \<open>p2\<close> and the height of \<open>p1\<close>; as
  diagonal measurement the Euclidean distance between \<open>p1\<close> and \<open>p2\<close>.
\<close>

theorem computeMetrics_three_measurements:
  assumes "fromCartesian g p1 = Some c1" and "fromCartesian g p2 = Some c2"
  shows "\<exists>m. computeMetrics g p1 p2 = Inr m
           \<and> heightDiff m = \<bar>height c2 - height c1\<bar>
           \<and> heightDiff m = \<bar>height c1 - height c2\<bar>
           \<and> proj m = fromRadians g (longitude c2) (latitude c2) (height c1)
           \<and> horizontal m = distance p1 (proj m)
           \<and> diagonal m = distance p1 p2
           \<and> diagonal m = sqrt ((cx p1 - cx p2)\<^sup>2 + (cy p1 - cy p2)\<^sup>2 + (cz p1 - cz p2)\<^sup>2)"
  using assms by (simp add: computeMetrics_def Let_def distance_def)

theorem computeMetrics_three_measurements_witness:
  "fromCartesian gridEllipsoid \<lparr>cx = 1, cy = 1, cz = 10\<rparr> = Some \<lparr>longitude = 1, latitude = 1, height = 10\<rparr>
   \<and> fromCartesian gridEllipsoid \<lparr>cx = 4, cy = 5, cz = 22\<rparr> = Some \<lparr>longitude = 4, latitude = 5, height = 22\<rparr>
   \<and> computeMetrics gridEllipsoid \<lparr>cx = 1, cy = 1, cz = 10\<rparr> \<lparr>cx = 4, cy = 5, cz = 22\<rparr>
       = Inr \<lparr>horizontal = 5, heightDiff = 12, diagonal = 13, proj = \<lparr>cx = 4, cy = 5, cz = 10\<rparr>\<rparr>"
proof -
  let ?p1 = "\<lparr>cx = 1, cy = 1, cz = 10\<rparr>" and ?p2 = "\<lparr>cx = 4, cy = 5, cz = 22\<rparr>"
  have a: "fromCartesian gridEllipsoid ?p1 = Some \<lparr>longitude = 1, latitude = 1, height = 10\<rparr>"
    and b: "fromCartesian gridEllipsoid ?p2 = Some \<lparr>longitude = 4, latitude = 5, height = 22\<rparr>"
    by (simp_all add: gridEllipsoid_def)
  from computeMetrics_three_measurements [OF a b]
  obtain m where m: "computeMetrics gridEllipsoid ?p1 ?p2 = Inr m"
    "heightDiff m = \<bar>22 - 10\<bar>" "proj m = fromRadians gridEllipsoid 4 5 10"
    "horizontal m = distance ?p1 (proj m)" "diagonal m = distance ?p1 ?p2"
    by auto
  have "m = \<lparr>horizontal = 5, heightDiff = 12, diagonal = 13, proj = \<lparr>cx = 4, cy = 5, cz = 10\<rparr>\<rparr>"
    using m(2-5) by (cases m) (simp add: gridEllipsoid_def distance_def sqrt_169 sqrt_25)
  with a b m(1) show ?thesis by simp
qed

section \<open>Measure-height: two clicks make a measurement\<close>

lemma computeMetrics_defined:
  "fromCartesian g p1 \<noteq> None \<Longrightarrow> fromCartesian g p2 \<noteq> None \<Longrightarrow>
   \<exists>m. computeMetrics g p1 p2 = Inr m"
  by (auto simp: computeMetrics_def Let_def)

lemma finalizeHeight_two_points:
  assumes "pts s = [p1, p2]" and "fromCartesian g p1 \<noteq> None" and "fromCartesian g p2 \<noteq> None"
  shows "\<exists>s'. finalizeHeight g s = Normal s' \<and> pts s' = [] \<and> tempMarkerEnts s' = []
           \<and> handler s' = handler s \<and> isDrawing s' = isDrawing s
           \<and> measuredLines s' = measuredLines s @ [length (objects (viewer s)),
                length (objects (viewer s)) + 1, length (objects (viewer s)) + 2]
           \<and> measuredLabels s' = measuredLabels s @ [length (objects (viewer s)) + 3,
                length (objects (viewer s)) + 4, length (objects (viewer s)) + 5]
           \<and> graphics (objects (viewer s') ! length (objects (viewer s))) = Polyline Red [p1, p2]"
proof -
  from computeMetrics_defined [OF assms(2,3)] obtain m where m: "computeMetrics g p1 p2 = Inr m"
    by blast
  show ?thesis
    using assms(1) m
    by (simp add: finalizeHeight_def add_def Let_def objects_fold_remove nth_append)
qed

lemma addPoint_fields:
  "pts (addPoint pos s) = pts s @ [pos] \<and> handler (addPoint pos s) = handler s
   \<and> isDrawing (addPoint pos s) = isDrawing s
   \<and> measuredLines (addPoint pos s) = measuredLines s
   \<and> measuredLabels (addPoint pos s) = measuredLabels s
   \<and> length (objects (viewer (addPoint pos s))) = Suc (length (objects (viewer s)))
   \<and> tempMarkerEnts (addPoint pos s) = tempMarkerEnts s @ [length (objects (viewer s))]"
  by (simp add: addPoint_def add_def Let_def)

lemma leftClick_height_first:
  assumes "pts s = []" and "pickWorldPosition (Some w) = Some pos"
  shows "leftClick_height g w s = Normal (addPoint pos s)"
  using assms by (simp add: leftClick_height_def Let_def addPoint_fields)

lemma leftClick_height_second:
  assumes "pts s = [p1]" and "pickWorldPosition (Some w) = Some pos"
    and "fromCartesian g p1 \<noteq> None" and "fromCartesian g pos \<noteq> None"
  shows "\<exists>s'. leftClick_height g w s = Normal s' \<and> pts s' = [] \<and> tempMarkerEnts s' = []
           \<and> handler s' = handler s \<and> isDrawing s' = isDrawing s
           \<and> length (measuredLines s') = length (measuredLines s) + 3
           \<and> length (measuredLabels s') = length (measuredLabels s) + 3
           \<and> graphics (objects (viewer s') ! hd (drop (length (measuredLines s)) (measuredLines s')))
               = Polyline Red [p1, pos]"
proof -
  let ?n = "length (objects (viewer (addPoint pos s)))"
  have p: "pts (addPoint pos s) = [p1, pos]"
    using assms(1) by (simp add: addPoint_fields)
  from finalizeHeight_two_points [OF p assms(3,4)] obtain s' where
    s': "finalizeHeight g (addPoint pos s) = Normal s'" "pts s' = []" "tempMarkerEnts s' = []"
      "handler s' = handler s" "isDrawing s' = isDrawing s"
      "measuredLines s' = measuredLines s @ [?n, ?n + 1, ?n + 2]"
      "measuredLabels s' = measuredLabels s @ [?n + 3, ?n + 4, ?n + 5]"
      "graphics (objects (viewer s') ! ?n) = Polyline Red [p1, pos]"
    by (auto simp: addPoint_fields)
  have "leftClick_height g w s = Normal s'"
    using assms(2) p s'(1) by (simp add: leftClick_height_def Let_def)
  with s' show ?thesis by simp
qed

lemma settled_stop: "settled g (stopDrawing_height s)"
  by (simp add: settled_def stopDrawing_height_def)

lemma settled_start: "settled g (startDrawing_height s)"
  by (simp add: settled_def startDrawing_height_def)

lemma settled_clear: "settled g (clearAll_height s)"
  by (simp add: settled_def clearAll_height_def stopDrawing_height_def Let_def)

lemma settled_click:
  assumes "settled g s" and "convertible g (LeftClick_height w)"
  shows "settled g (state_of (leftClick_height g w s))"
proof (cases "pickWorldPosition (Some w)")
  case None
  with assms(1) show ?thesis by (simp add: leftClick_height_def)
next
  case (Some pos)
  with assms(2) have c: "fromCartesian g pos \<noteq> None" by simp
  show ?thesis
  proof (cases "pts s")
    case Nil
    from leftClick_height_first [OF Nil Some] assms(1) c Nil show ?thesis
      by (simp add: settled_def addPoint_fields)
  next
    case (Cons p1 rest)
    with assms(1) have one: "pts s = [p1]" and c1: "fromCartesian g p1 \<noteq> None"
      by (simp_all add: settled_def)
    from leftClick_height_second [OF one Some c1 c] assms(1) show ?thesis
      by (auto simp: settled_def)
  qed
qed

lemma settled_dispatch:
  "settled g s \<Longrightarrow> convertible g e \<Longrightarrow> settled g (dispatch_height g e s)"
  by (cases e)
     (simp_all add: settled_stop settled_start settled_clear settled_click del: convertible.simps)

lemma settled_run:
  "settled g s \<Longrightarrow> list_all (convertible g) es \<Longrightarrow> settled g (run_height g es s)"
  by (induction es arbitrary: s) (simp_all add: settled_dispatch)

lemma settled_init: "settled g (initMeasureHeight v)"
  by (simp add: settled_def initMeasureHeight_def)

text \<open>
  Claim C10. The height tool has no double-click handler. In every state it reaches
  through events whose clicked positions have conversions, while it is drawing, the buffer
  holds at most one point between two events and at most two inside the click handler. A
  click that resolves to a position on an empty buffer only stores the point; on a buffer
  of one point it finalizes at once: the handler returns, three lines (the red one from the
  first point to the clicked one) and three labels are added to the finalized lists, the
  temporary markers are gone and the buffer is empty again, so the next click is the first
  point of a new measurement.
\<close>

theorem height_tool_finalizes_on_second_click:
  assumes "s = run_height g es (initMeasureHeight v)" and "list_all (convertible g) es"
    and "isDrawing s" and "pickWorldPosition (Some w) = Some pos" and "fromCartesian g pos \<noteq> None"
  shows "length (pts s) \<le> 1 \<and> length (pts (addPoint pos s)) \<le> 2
       \<and> (if pts s = []
           then dispatch_height g (LeftClick_height w) s = addPoint pos s
              \<and> pts (dispatch_height g (LeftClick_height w) s) = [pos]
              \<and> measuredLines (dispatch_height g (LeftClick_height w) s) = measuredLines s
           else (\<exists>s'. leftClick_height g w s = Normal s'
                  \<and> dispatch_height g (LeftClick_height w) s = s'
                  \<and> pts s' = [] \<and> tempMarkerEnts s' = []
                  \<and> length (measuredLines s') = length (measuredLines s) + 3
                  \<and> length (measuredLabels s') = length (measuredLabels s) + 3
                  \<and> graphics (objects (viewer s') ! hd (drop (length (measuredLines s)) (measuredLines s')))
                      = Polyline Red [hd (pts s), pos]))"
proof -
  have st: "settled g s"
    using assms(1,2) by (simp add: settled_run settled_init)
  with assms(3) have h: "handler s" and len: "length (pts s) \<le> 1"
    by (simp_all add: settled_def)
  show ?thesis
  proof (cases "pts s")
    case Nil
    from leftClick_height_first [OF Nil assms(4)] h Nil show ?thesis
      by (simp add: addPoint_fields)
  next
    case (Cons p1 rest)
    with st have one: "pts s = [p1]" and c1: "fromCartesian g p1 \<noteq> None"
      by (simp_all add: settled_def)
    from leftClick_height_second [OF one assms(4) c1 assms(5)] h one show ?thesis
      by (auto simp: addPoint_fields)
  qed
qed

theorem height_tool_finalizes_on_second_click_witness:
  "isDrawing (run_height gridEllipsoid
       [StartButton_height, LeftClick_height \<lparr>scenePick = Some \<lparr>cx = 1, cy = 1, cz = 10\<rparr>, ellipsoidPick = None\<rparr>]
       (initMeasureHeight \<lparr>objects = [], shown = []\<rparr>))
   \<and> pts (run_height gridEllipsoid
       [StartButton_height, LeftClick_height \<lparr>scenePick = Some \<lparr>cx = 1, cy = 1, cz = 10\<rparr>, ellipsoidPick = None\<rparr>]
       (initMeasureHeight \<lparr>objects = [], shown = []\<rparr>)) = [\<lparr>cx = 1, cy = 1, cz = 10\<rparr>]
   \<and> pts (dispatch_height gridEllipsoid
            (LeftClick_height \<lparr>scenePick = None, ellipsoidPick = Some \<lparr>cx = 4, cy = 5, cz = 22\<rparr>\<rparr>)
            (run_height gridEllipsoid
               [StartButton_height, LeftClick_height \<lparr>scenePick = Some \<lparr>cx = 1, cy = 1, cz = 10\<rparr>, ellipsoidPick = None\<rparr>]
               (initMeasureHeight \<lparr>objects = [], shown = []\<rparr>))) = []
   \<and> length (measuredLines (dispatch_height gridEllipsoid
            (LeftClick_height \<lparr>scenePick = None, ellipsoidPick = Some \<lparr>cx = 4, cy = 5, cz = 22\<rparr>\<rparr>)
            (run_height gridEllipsoid
               [StartButton_height, LeftClick_height \<lparr>scenePick = Some \<lparr>cx = 1, cy = 1, cz = 10\<rparr>, ellipsoidPick = None\<rparr>]
               (initMeasureHeight \<lparr>objects = [], shown = []\<rparr>)))) = 3"
proof -
  let ?es = "[StartButton_height, LeftClick_height \<lparr>scenePick = Some \<lparr>cx = 1, cy = 1, cz = 10\<rparr>, ellipsoidPick = None\<rparr>]"
  let ?w = "\<lparr>scenePick = None, ellipsoidPick = Some \<lparr>cx = 4, cy = 5, cz = 22\<rparr>\<rparr>"
  let ?s = "run_height gridEllipsoid ?es (initMeasureHeight \<lparr>objects = [], shown = []\<rparr>)"
  have c: "list_all (convertible gridEllipsoid) ?es"
    by (simp add: pickWorldPosition_def gridEllipsoid_def)
  have d: "isDrawing ?s" and p: "pts ?s = [\<lparr>cx = 1, cy = 1, cz = 10\<rparr>]" and m: "measuredLines ?s = []"
    by (simp_all add: leftClick_height_def addPoint_def add_def startDrawing_height_def
          initMeasureHeight_def pickWorldPosition_def Let_def)
  have k: "pickWorldPosition (Some ?w) = Some \<lparr>cx = 4, cy = 5, cz = 22\<rparr>"
    by (simp add: pickWorldPosition_def)
  have f: "fromCartesian gridEllipsoid \<lparr>cx = 4, cy = 5, cz = 22\<rparr> \<noteq> None"
    by (simp add: gridEllipsoid_def)
  from height_tool_finalizes_on_second_click [OF refl c d k f] p m
  have "pts (dispatch_height gridEllipsoid (LeftClick_height ?w) ?s) = []
      \<and> length (measuredLines (dispatch_height gridEllipsoid (LeftClick_height ?w) ?s)) = 3"
    by auto
  with d p show ?thesis by blast
qed

section \<open>Terrain profile: identifiers are never reused\<close>

lemma digit_inj: "a < 10 \<Longrightarrow> b < 10 \<Longrightarrow> digit a = digit b \<Longrightarrow> a = b"
proof -
  assume a: "a < 10" and b: "b < 10" and e: "digit a = digit b"
  have d: "distinct ''0123456789''" by simp
  have "a < length ''0123456789''" "b < length ''0123456789''"
    using a b by simp_all
  with d e show "a = b"
    unfolding digit_def by (simp only: nth_eq_iff_index_eq)
qed

lemma numberToString_nonempty: "numberToString n \<noteq> []"
  by (subst numberToString.simps) simp

lemma numberToString_small: "n < 10 \<Longrightarrow> numberToString n = [digit n]"
  by (subst numberToString.simps) simp

lemma numberToString_large:
  "10 \<le> n \<Longrightarrow> numberToString n = numberToString (n div 10) @ [digit (n mod 10)]"
  by (subst numberToString.simps) simp

lemma numberToString_inj: "numberToString a = numberToString b \<Longrightarrow> a = b"
proof (induction a arbitrary: b rule: numberToString.induct)
  case (1 n)
  show ?case
  proof (cases "n < 10")
    case True
    show ?thesis
    proof (cases "b < 10")
      case b: True
      with True "1.prems" show ?thesis
        by (simp add: numberToString_small digit_inj)
    next
      case False
      with True "1.prems" numberToString_nonempty [of "b div 10"] show ?thesis
        by (simp add: numberToString_small numberToString_large)
    qed
  next
    case False
    show ?thesis
    proof (cases "b < 10")
      case True
      with False "1.prems" numberToString_nonempty [of "n div 10"] show ?thesis
        by (simp add: numberToString_small numberToString_large)
    next
      case b: False
      with False "1.prems" have
        eq: "numberToString (n div 10) = numberToString (b div 10)"
        and d: "digit (n mod 10) = digit (b mod 10)"
        by (simp_all add: numberToString_large)
      from "1.IH" [OF False eq] have "n div 10 = b div 10" .
      moreover from d have "n mod 10 = b mod 10" by (simp add: digit_inj)
      ultimately show ?thesis by (metis div_mult_mod_eq)
    qed
  qed
qed


lemma createNewProfileId_eq:
  "createNewProfileId s
     = (''G'' @ numberToString (Suc (profileCounter s)), s\<lparr>profileCounter := Suc (profileCounter s)\<rparr>)"
  by (simp add: createNewProfileId_def Let_def)

lemma profileCounter_deleteClick: "profileCounter (deleteClick ident s) = profileCounter s"
  by (simp add: deleteClick_def Let_def split: option.splits list.splits)

lemma registerProfile_creation:
  assumes "creation g (Sampled positions hs)"
  shows "registerProfile g positions hs s
           = Normal (s\<lparr>profileCounter := Suc (profileCounter s),
                        graphSelect := graphSelect s @ [''G'' @ numberToString (Suc (profileCounter s))],
                        deleteSelect := deleteSelect s @ [''G'' @ numberToString (Suc (profileCounter s))],
                        profiles := profiles s @
                          [\<lparr>id_profile = ''G'' @ numberToString (Suc (profileCounter s)),
                            cartesianPositions = positions, heights = hs\<rparr>],
                        activeProfileId := Some (''G'' @ numberToString (Suc (profileCounter s)))\<rparr>)"
  using assms
  by (auto simp: registerProfile_def createNewProfileId_eq split: list.splits option.splits)

lemma profileCounter_registerProfile:
  "profileCounter (state_of (registerProfile g positions hs s)) = Suc (profileCounter s)"
  by (simp add: registerProfile_def createNewProfileId_eq split: list.splits option.splits)

lemma created_run_from:
  assumes "list_all (creation_or_deletion g) es"
  shows "created g es s
           = map (\<lambda>n. ''G'' @ numberToString n)
               [Suc (profileCounter s) ..< Suc (profileCounter s) + length (filter (creation g) es)]
         \<and> profileCounter (run_terrain g es s)
           = profileCounter s + length (filter (creation g) es)"
  using assms
proof (induction es arbitrary: s)
  case Nil
  show ?case by simp
next
  case (Cons e es)
  then have rest: "list_all (creation_or_deletion g) es" by simp
  show ?case
  proof (cases e)
    case (Sampled positions hs)
    with Cons.prems have c: "creation g (Sampled positions hs)" by simp
    have step: "dispatch_terrain g (Sampled positions hs) s
                  = state_of (registerProfile g positions hs s)" by simp
    have cnt: "profileCounter (dispatch_terrain g (Sampled positions hs) s) = Suc (profileCounter s)"
      by (simp add: profileCounter_registerProfile)
    have "created g (e # es) s
            = (''G'' @ numberToString (Suc (profileCounter s)))
              # created g es (dispatch_terrain g (Sampled positions hs) s)"
      unfolding Sampled by (simp add: registerProfile_creation [OF c] del: dispatch_terrain.simps)
    with Cons.IH [OF rest, of "dispatch_terrain g (Sampled positions hs) s"] cnt c Sampled
    show ?thesis
      by (simp add: upt_conv_Cons del: dispatch_terrain.simps creation.simps upt_Suc)
  next
    case (DeleteButton ident)
    with Cons.IH [OF rest, of "deleteClick ident s"] show ?thesis
      by (simp add: profileCounter_deleteClick)
  qed
qed

lemma created_append:
  "created g (es1 @ es2) s = created g es1 s @ created g es2 (run_terrain g es1 s)"
proof (induction es1 arbitrary: s)
  case Nil
  show ?case by simp
next
  case (Cons e es1)
  then show ?case by (cases e) (simp_all del: dispatch_terrain.simps)
qed

lemma G_inj: "inj (\<lambda>n. ''G'' @ numberToString n)"
  by (rule injI) (simp add: numberToString_inj)

lemma numbered_init: "numbered initTerrainSection"
  by (simp add: numbered_def initTerrainSection_def)

lemma numbered_deleteClick: "numbered s \<Longrightarrow> numbered (deleteClick ident s)"
proof -
  assume n: "numbered s"
  have sub: "distinct (map id_profile (take i ps @ drop (Suc i) ps))" if "distinct (map id_profile ps)"
    for i and ps :: "profile list"
  proof -
    let ?xs = "map id_profile ps"
    have "distinct (take i ?xs @ drop i ?xs)" using that by simp
    then have a: "distinct (take i ?xs)" and b: "set (take i ?xs) \<inter> set (drop i ?xs) = {}"
      by (simp_all only: distinct_append)
    have c: "distinct (drop (Suc i) ?xs)" using that by (rule distinct_drop)
    have "set (drop (Suc i) ?xs) \<subseteq> set (drop i ?xs)"
      by (rule set_drop_subset_set_drop) simp
    with a b c have "distinct (take i ?xs @ drop (Suc i) ?xs)"
      by (simp only: distinct_append) blast
    then show ?thesis by (simp add: take_map drop_map)
  qed
  have all: "list_all P (take i ps @ drop (Suc i) ps)" if "list_all P ps"
    for P i and ps :: "profile list"
    using that by (auto simp: list_all_iff dest: in_set_takeD in_set_dropD)
  have "profiles (deleteClick ident s)
          = (if ident = [] then profiles s
             else case findIndex (\<lambda>p. id_profile p = ident) (profiles s) of
                    None \<Rightarrow> profiles s
                  | Some i \<Rightarrow> take i (profiles s) @ drop (Suc i) (profiles s))"
    by (auto simp: deleteClick_def Let_def split: option.splits list.splits)
  then have "profiles (deleteClick ident s) = profiles s
        \<or> (\<exists>i. profiles (deleteClick ident s) = take i (profiles s) @ drop (Suc i) (profiles s))"
    by (auto split: option.splits if_splits)
  then show ?thesis
  proof
    assume "profiles (deleteClick ident s) = profiles s"
    with n show ?thesis by (simp add: numbered_def profileCounter_deleteClick)
  next
    assume "\<exists>i. profiles (deleteClick ident s) = take i (profiles s) @ drop (Suc i) (profiles s)"
    then obtain i where i: "profiles (deleteClick ident s) = take i (profiles s) @ drop (Suc i) (profiles s)"
      by blast
    from n have d: "distinct (map id_profile (profiles s))"
      and l: "list_all (\<lambda>p. \<exists>n. 1 \<le> n \<and> n \<le> profileCounter s \<and> id_profile p = ''G'' @ numberToString n)
         (profiles s)"
      by (simp_all add: numbered_def)
    from sub [OF d, of i] all [OF l, of i] show ?thesis
      unfolding numbered_def i profileCounter_deleteClick by simp
  qed
qed

lemma numbered_registerProfile: "numbered s \<Longrightarrow> numbered (state_of (registerProfile g positions hs s))"
proof -
  assume n: "numbered s"
  have fresh: "''G'' @ numberToString (Suc (profileCounter s)) \<notin> set (map id_profile (profiles s))"
  proof
    assume "''G'' @ numberToString (Suc (profileCounter s)) \<in> set (map id_profile (profiles s))"
    then obtain p where p: "p \<in> set (profiles s)"
      "id_profile p = ''G'' @ numberToString (Suc (profileCounter s))" by auto
    with n obtain k where "k \<le> profileCounter s" "id_profile p = ''G'' @ numberToString k"
      by (auto simp: numbered_def list_all_iff)
    with p(2) have "k = Suc (profileCounter s)" by (simp add: numberToString_inj)
    with \<open>k \<le> profileCounter s\<close> show False by simp
  qed
  have weaken: "list_all (\<lambda>p. \<exists>n. 1 \<le> n \<and> n \<le> Suc (profileCounter s)
                   \<and> id_profile p = ''G'' @ numberToString n) (profiles s)"
    using n unfolding numbered_def list_all_iff by (meson le_SucI)
  show ?thesis
    using n fresh weaken
    by (auto simp: numbered_def registerProfile_def createNewProfileId_eq
          split: list.splits option.splits)
qed

lemma numbered_run: "numbered s \<Longrightarrow> numbered (run_terrain g es s)"
proof (induction es arbitrary: s)
  case Nil
  then show ?case by simp
next
  case (Cons e es)
  then show ?case
    by (cases e) (simp_all add: numbered_deleteClick numbered_registerProfile)
qed


lemma created_subset:
  "set (map id_profile (profiles (run_terrain g es s)))
     \<subseteq> set (map id_profile (profiles s)) \<union> set (created g es s)"
proof (induction es arbitrary: s)
  case Nil
  show ?case by simp
next
  case (Cons e es)
  show ?case
  proof (cases e)
    case (Sampled positions hs)
    have "set (map id_profile (profiles (state_of (registerProfile g positions hs s))))
            \<subseteq> set (map id_profile (profiles s))
              \<union> set (case registerProfile g positions hs s of
                        Normal s1 \<Rightarrow> [id_profile (last (profiles s1))] | Thrown e s1 \<Rightarrow> [])"
      by (auto simp: registerProfile_def createNewProfileId_eq split: list.splits option.splits)
    with Cons.IH [of "dispatch_terrain g e s"] Sampled show ?thesis
      by auto
  next
    case (DeleteButton ident)
    have "profiles (deleteClick ident s)
          = (if ident = [] then profiles s
             else case findIndex (\<lambda>p. id_profile p = ident) (profiles s) of
                    None \<Rightarrow> profiles s
                  | Some i \<Rightarrow> take i (profiles s) @ drop (Suc i) (profiles s))"
      by (auto simp: deleteClick_def Let_def split: option.splits list.splits)
    then have "set (profiles (deleteClick ident s)) \<subseteq> set (profiles s)"
      by (auto split: option.splits if_splits dest: in_set_takeD in_set_dropD)
    with Cons.IH [of "dispatch_terrain g e s"] DeleteButton show ?thesis
      by auto
  qed
qed

text \<open>
  Claim C9. In every session of profile creations and deletions, starting from the tool's
  initial state, the \<open>n\<close>-th created profile receives the identifier \<open>G\<close> followed by \<open>n\<close>.
  The counter equals the number of creations so far and a deletion leaves it as it is.
  Hence the identifiers given out are all different, the stored profiles have different
  identifiers, each of them given out earlier, and no identifier given out in a later part
  of the session was given out before, whether or not its profile has been deleted.
\<close>

theorem profile_identifiers_count_up:
  assumes "list_all (creation_or_deletion g) es"
  shows "created g es initTerrainSection
           = map (\<lambda>n. ''G'' @ numberToString n) [1 ..< Suc (length (filter (creation g) es))]
       \<and> (\<forall>n. 1 \<le> n \<and> n \<le> length (filter (creation g) es) \<longrightarrow>
             created g es initTerrainSection ! (n - 1) = ''G'' @ numberToString n)
       \<and> profileCounter (run_terrain g es initTerrainSection) = length (filter (creation g) es)
       \<and> (\<forall>ident s. profileCounter (deleteClick ident s) = profileCounter s)
       \<and> distinct (created g es initTerrainSection)
       \<and> distinct (map id_profile (profiles (run_terrain g es initTerrainSection)))
       \<and> set (map id_profile (profiles (run_terrain g es initTerrainSection)))
            \<subseteq> set (created g es initTerrainSection)
       \<and> (\<forall>es1 es2. es = es1 @ es2 \<longrightarrow>
             set (created g es2 (run_terrain g es1 initTerrainSection))
               \<inter> set (created g es1 initTerrainSection) = {})"
proof -
  let ?k = "length (filter (creation g) es)"
  let ?G = "\<lambda>n. ''G'' @ numberToString n"
  from created_run_from [OF assms, of initTerrainSection]
  have c: "created g es initTerrainSection = map ?G [1 ..< Suc ?k]"
    and k: "profileCounter (run_terrain g es initTerrainSection) = ?k"
    by (simp_all add: initTerrainSection_def)
  have nth: "created g es initTerrainSection ! (n - 1) = ?G n" if "1 \<le> n" "n \<le> ?k" for n
  proof -
    have "n - 1 < length [1 ..< Suc ?k]" using that by simp
    then have "map ?G [1 ..< Suc ?k] ! (n - 1) = ?G ([1 ..< Suc ?k] ! (n - 1))"
      by (rule nth_map)
    also have "[1 ..< Suc ?k] ! (n - 1) = n" using that by (simp add: nth_upt del: upt_Suc)
    finally show ?thesis using c by simp
  qed
  have d: "distinct (created g es initTerrainSection)"
    unfolding c using G_inj by (simp add: distinct_map inj_on_def inj_def del: upt_Suc)
  have n: "distinct (map id_profile (profiles (run_terrain g es initTerrainSection)))"
    using numbered_run [OF numbered_init, of g es] by (simp add: numbered_def)
  have s: "set (map id_profile (profiles (run_terrain g es initTerrainSection)))
            \<subseteq> set (created g es initTerrainSection)"
    using created_subset [of g es initTerrainSection] by (simp add: initTerrainSection_def)
  have r: "set (created g es2 (run_terrain g es1 initTerrainSection))
             \<inter> set (created g es1 initTerrainSection) = {}" if "es = es1 @ es2" for es1 es2
    using d unfolding that created_append by auto
  have nth': "\<forall>n. 1 \<le> n \<and> n \<le> ?k \<longrightarrow> created g es initTerrainSection ! (n - 1) = ?G n"
    using nth by blast
  have del: "\<forall>ident s. profileCounter (deleteClick ident s) = profileCounter s"
    by (simp add: profileCounter_deleteClick)
  have r': "\<forall>es1 es2. es = es1 @ es2 \<longrightarrow>
             set (created g es2 (run_terrain g es1 initTerrainSection))
               \<inter> set (created g es1 initTerrainSection) = {}"
    using r by blast
  show ?thesis
    using c nth' k del d n s r' by - (intro conjI; assumption)
qed

theorem profile_identifiers_count_up_witness:
  "created gridEllipsoid
     [Sampled [\<lparr>cx = 1, cy = 2, cz = 3\<rparr>] [3], Sampled [\<lparr>cx = 4, cy = 5, cz = 6\<rparr>] [6],
      DeleteButton ''G1'', Sampled [\<lparr>cx = 7, cy = 8, cz = 9\<rparr>] [9]]
     initTerrainSection = [''G1'', ''G2'', ''G3'']
   \<and> map id_profile (profiles (run_terrain gridEllipsoid
     [Sampled [\<lparr>cx = 1, cy = 2, cz = 3\<rparr>] [3], Sampled [\<lparr>cx = 4, cy = 5, cz = 6\<rparr>] [6],
      DeleteButton ''G1'', Sampled [\<lparr>cx = 7, cy = 8, cz = 9\<rparr>] [9]]
     initTerrainSection)) = [''G2'', ''G3'']"
proof -
  let ?es = "[Sampled [\<lparr>cx = 1, cy = 2, cz = 3\<rparr>] [3], Sampled [\<lparr>cx = 4, cy = 5, cz = 6\<rparr>] [6],
      DeleteButton ''G1'', Sampled [\<lparr>cx = 7, cy = 8, cz = 9\<rparr>] [9]]"
  have h: "list_all (creation_or_deletion gridEllipsoid) ?es"
    by (simp add: gridEllipsoid_def)
  have f: "length (filter (creation gridEllipsoid) ?es) = 3"
    by (simp add: gridEllipsoid_def)
  have u: "[1 ..< Suc 3] = [1, 2, 3]"
    by (simp add: upt_conv_Cons del: upt_Suc)
  have g: "numberToString (Suc 0) = ''1''" "numberToString 2 = ''2''" "numberToString 3 = ''3''"
    by (simp_all add: numberToString_small digit_def)
  have g2: "numberToString (Suc (Suc 0)) = ''2''"
    using g(2) by (simp add: numeral_2_eq_2)
  have g3: "numberToString (Suc (Suc (Suc 0))) = ''3''"
    using g(3) by (simp add: numeral_3_eq_3)
  from profile_identifiers_count_up [OF h]
  have "created gridEllipsoid ?es initTerrainSection
          = map (\<lambda>n. ''G'' @ numberToString n) [1 ..< Suc (length (filter (creation gridEllipsoid) ?es))]"
    by blast
  then have a: "created gridEllipsoid ?es initTerrainSection = [''G1'', ''G2'', ''G3'']"
    unfolding f u by (simp add: g)
  have b: "map id_profile (profiles (run_terrain gridEllipsoid ?es initTerrainSection)) = [''G2'', ''G3'']"
    by (simp add: registerProfile_def createNewProfileId_eq deleteClick_def Let_def
          initTerrainSection_def gridEllipsoid_def g g2 g3)
  from a b show ?thesis by blast
qed

end
